theory Spec2Isabelle
  imports Complex_Main "HOL-Library.AList" "HOL-Library.Char_ord" "HOL-Library.List_Lexorder"
begin

section \<open>Conventions of the embedding\<close>

text \<open>
  The program is Python. Its \<open>float\<close> values are modelled by the real numbers they denote
  (type \<open>real\<close>); comparisons of floats are then exact. Where a claim is about the
  rounding of float arithmetic itself (the ensemble weights), the rounding
  operator is a parameter of the definition. Python exceptions are values of the type
  \<open>error\<close>; a function that can raise returns \<open>error + 'a\<close>.
\<close>

datatype error =
  KeyError string | IndexError | ValueError | ZeroDivisionError | OtherError string

section \<open>src/ml-model/src/preprocessor.py\<close>

subsection \<open>Data frames\<close>

text \<open>
  The input frame of \<open>prepare_features\<close>. Only the eight canonical columns are ever read;
  a column the frame does not have is \<open>None\<close>. Numeric columns hold floats, the three
  categorical columns hold strings (a cleaned record set has no missing cells).
  \<open>Current_SoC_pct\<close> is the column \<open>Current_SoC_%\<close>.
\<close>

record dataframe =
  Battery_Capacity_kWh :: "real list option"
  Current_SoC_pct :: "real list option"
  Avg_Speed_kmh :: "real list option"
  Temperature_C :: "real list option"
  Terrain :: "string list option"
  AC_Usage :: "string list option"
  Driving_Style :: "string list option"
  Range_km :: "real list option"

text \<open>
  The frame \<open>features\<close> that is built: its columns in order, each with its name.
  \<open>pd.DataFrame()\<close> is the empty list. A frame without columns has no rows.
\<close>

type_synonym frame = "(string \<times> real list) list"

definition columns :: "frame \<Rightarrow> string list" where
  "columns f = map fst f"

definition nrows :: "frame \<Rightarrow> nat" where
  "nrows f = (case f of [] \<Rightarrow> 0 | (n, c) # r \<Rightarrow> length c)"

text \<open>\<open>features[name] = series\<close>: replaces the column of that name where it stands, or
  appends a new last column.\<close>

definition setitem :: "frame \<Rightarrow> string \<Rightarrow> real list \<Rightarrow> frame" where
  "setitem f name c = AList.update name c f"

text \<open>\<open>features[name] = 0\<close>: the scalar is broadcast over the rows the frame has.\<close>

definition setitem_scalar :: "frame \<Rightarrow> string \<Rightarrow> real \<Rightarrow> frame" where
  "setitem_scalar f name v = setitem f name (replicate (nrows f) v)"

text \<open>\<open>features[name]\<close>, read where the source has checked that the column is there.\<close>

definition getitem :: "frame \<Rightarrow> string \<Rightarrow> real list" where
  "getitem f name = (case map_of f name of Some c \<Rightarrow> c | None \<Rightarrow> [])"

text \<open>\<open>pd.concat([features, dummies], axis=1)\<close>: the columns of the second frame follow
  those of the first.\<close>

definition concat_axis1 :: "frame \<Rightarrow> frame \<Rightarrow> frame" where
  "concat_axis1 f g = f @ g"

text \<open>\<open>features[names]\<close> with a list of names: every column carrying a listed name, in the
  order of the list; a name no column carries raises \<open>KeyError\<close>.\<close>

definition getitem_list :: "frame \<Rightarrow> string list \<Rightarrow> error + frame" where
  "getitem_list f names =
     (case filter (\<lambda>n. n \<notin> set (columns f)) names of
        [] \<Rightarrow> Inr (concat (map (\<lambda>n. filter (\<lambda>c. fst c = n) f) names))
      | n # ns \<Rightarrow> Inl (KeyError n))"

text \<open>\<open>pd.get_dummies(series, prefix=p)\<close>: one indicator column \<open>p_<value>\<close> for each
  distinct value of the series, the values in sorted order; the cell is 1 in the rows
  holding that value and 0 elsewhere.\<close>

definition get_dummies :: "string list \<Rightarrow> string \<Rightarrow> frame" where
  "get_dummies series prefix =
     map (\<lambda>v. (prefix @ ''_'' @ v, map (\<lambda>x. if x = v then 1 else 0) series))
         (sort (remdups series))"

text \<open>\<open>str.lower()\<close> on ASCII letters.\<close>

definition lower_char :: "char \<Rightarrow> char" where
  "lower_char c =
     (let n = (of_char c :: nat) in if 65 \<le> n \<and> n \<le> 90 then char_of (n + 32) else c)"

definition lower :: "string \<Rightarrow> string" where
  "lower s = map lower_char s"

subsection \<open>EVDataPreprocessor\<close>

text \<open>The state of the preprocessor that \<open>prepare_features\<close> reads and writes. The scaler
  is an object of scikit-learn and acts on the cell values only.\<close>

record preprocessor =
  feature_names :: "string list"

definition init_preprocessor :: preprocessor where
  "init_preprocessor = \<lparr>feature_names = []\<rparr>"

text \<open>Lines 30 to 49 of \<open>prepare_features\<close>, "Numerical Features", starting from the
  empty frame of line 28.\<close>

definition numerical_features :: "dataframe \<Rightarrow> frame" where
  "numerical_features df =
    (let features = [];
         features = (case Battery_Capacity_kWh df of None \<Rightarrow> features
                     | Some c \<Rightarrow> setitem features ''battery_capacity_kwh'' c);
         features = (case Current_SoC_pct df of None \<Rightarrow> features
                     | Some s \<Rightarrow> setitem (setitem features ''current_soc_pct'' s)
                                   ''current_soc_normalized'' (map (\<lambda>x. x / 100) s));
         features = (case Avg_Speed_kmh df of None \<Rightarrow> features
                     | Some c \<Rightarrow> setitem features ''avg_speed_kmh'' c);
         features = (case Temperature_C df of None \<Rightarrow> features
                     | Some c \<Rightarrow> setitem features ''temperature_c'' c);
         features = (case (Battery_Capacity_kWh df, Current_SoC_pct df) of
                       (Some c, Some s) \<Rightarrow>
                          setitem features ''available_energy_kwh''
                            (map (\<lambda>(x, y). x * y / 100) (zip c s))
                     | _ \<Rightarrow> features)
     in features)"

text \<open>Lines 51 to 65, "Categorical Features (One-Hot Encoding)".\<close>

definition categorical_features :: "dataframe \<Rightarrow> frame \<Rightarrow> frame" where
  "categorical_features df features =
    (let features = (case Terrain df of None \<Rightarrow> features
                     | Some t \<Rightarrow> concat_axis1 features (get_dummies t ''terrain''));
         features = (case AC_Usage df of None \<Rightarrow> features
                     | Some a \<Rightarrow> setitem features ''ac_on''
                         (map (\<lambda>x. if lower x \<in> set [''on'', ''yes'', ''1'', ''true'']
                                    then 1 else 0) a));
         features = (case Driving_Style df of None \<Rightarrow> features
                     | Some d \<Rightarrow> concat_axis1 features (get_dummies d ''driving''))
     in features)"

text \<open>Lines 67 to 86, "Interaction Features".\<close>

definition interaction_features :: "frame \<Rightarrow> frame" where
  "interaction_features features =
    (let features = (if ''avg_speed_kmh'' \<in> set (columns features)
                        \<and> ''terrain_Highway'' \<in> set (columns features)
                     then setitem features ''speed_terrain_highway''
                            (map (\<lambda>(x, y). x * y)
                               (zip (getitem features ''avg_speed_kmh'')
                                    (getitem features ''terrain_Highway'')))
                     else features);
         features = (if ''temperature_c'' \<in> set (columns features)
                        \<and> ''ac_on'' \<in> set (columns features)
                     then setitem features ''temp_ac_interaction''
                            (map (\<lambda>(x, y). x * y)
                               (zip (getitem features ''temperature_c'')
                                    (getitem features ''ac_on'')))
                     else features);
         features = (if ''avg_speed_kmh'' \<in> set (columns features)
                     then setitem features ''speed_deviation_from_optimal''
                            (map (\<lambda>x. \<bar>x - 60\<bar>) (getitem features ''avg_speed_kmh''))
                     else features);
         features = (if ''temperature_c'' \<in> set (columns features)
                     then setitem features ''temp_deviation_from_optimal''
                            (map (\<lambda>x. \<bar>x - 45 / 2\<bar>) (getitem features ''temperature_c''))
                     else features)
     in features)"

text \<open>Lines 28 to 86: the frame \<open>features\<close> as it stands before the feature names are
  stored or read.\<close>

definition build_features :: "dataframe \<Rightarrow> frame" where
  "build_features df = interaction_features (categorical_features df (numerical_features df))"

text \<open>Lines 92 to 95: every expected name the frame lacks gets a column of zeros.\<close>

fun fill_missing :: "string list \<Rightarrow> frame \<Rightarrow> frame" where
  "fill_missing [] features = features"
| "fill_missing (col # cols) features =
     fill_missing cols
       (if col \<notin> set (columns features) then setitem_scalar features col 0 else features)"

text \<open>
  \<open>prepare_features(df, fit)\<close>. The result is the value returned (or the exception raised)
  together with the preprocessor as the call leaves it: the assignment to
  \<open>self.feature_names\<close> of line 90 stays made whatever happens afterwards.
\<close>

definition prepare_features ::
  "preprocessor \<Rightarrow> dataframe \<Rightarrow> bool \<Rightarrow> (error + frame \<times> real list option) \<times> preprocessor" where
  "prepare_features self df fit =
    (let y = Range_km df;
         features = build_features df;
         self = (if fit then self\<lparr>feature_names := columns features\<rparr> else self);
         features = fill_missing (feature_names self) features
     in (case getitem_list features (feature_names self) of
           Inl e \<Rightarrow> (Inl e, self)
         | Inr features \<Rightarrow> (Inr (features, y), self)))"

text \<open>A data frame is well formed when every column it has holds \<open>n\<close> cells, one per
  row: pandas keeps all columns of a frame on one index.\<close>

definition wf_dataframe :: "dataframe \<Rightarrow> nat \<Rightarrow> bool" where
  "wf_dataframe df n \<longleftrightarrow>
     (case Battery_Capacity_kWh df of None \<Rightarrow> True | Some c \<Rightarrow> length c = n) \<and>
     (case Current_SoC_pct df of None \<Rightarrow> True | Some c \<Rightarrow> length c = n) \<and>
     (case Avg_Speed_kmh df of None \<Rightarrow> True | Some c \<Rightarrow> length c = n) \<and>
     (case Temperature_C df of None \<Rightarrow> True | Some c \<Rightarrow> length c = n) \<and>
     (case Terrain df of None \<Rightarrow> True | Some c \<Rightarrow> length c = n) \<and>
     (case AC_Usage df of None \<Rightarrow> True | Some c \<Rightarrow> length c = n) \<and>
     (case Driving_Style df of None \<Rightarrow> True | Some c \<Rightarrow> length c = n) \<and>
     (case Range_km df of None \<Rightarrow> True | Some c \<Rightarrow> length c = n)"

section \<open>Python numbers and JSON values\<close>

text \<open>
  \<open>round(x, ndigits)\<close>: the nearest multiple of \<open>10^-ndigits\<close>, a tie going to the even
  neighbour.
\<close>

definition py_round :: "real \<Rightarrow> nat \<Rightarrow> real" where
  "py_round x ndigits =
     (let m = 10 ^ ndigits;
          y = x * m;
          f = \<lfloor>y\<rfloor>;
          d = y - of_int f;
          r = (if d < 1 / 2 then f else if 1 / 2 < d then f + 1
               else if even f then f else f + 1)
      in of_int r / m)"

text \<open>
  A \<open>numpy.float64\<close> is a finite value, an infinity or NaN; its arithmetic never raises
  (division by zero gives an infinity or NaN and a warning). The two zeros of the float
  format are not told apart.
\<close>

datatype npfloat = Fin real | PosInf | NegInf | NaN

fun np_mul :: "npfloat \<Rightarrow> npfloat \<Rightarrow> npfloat" where
  "np_mul NaN b = NaN"
| "np_mul a NaN = NaN"
| "np_mul (Fin a) (Fin b) = Fin (a * b)"
| "np_mul (Fin a) PosInf = (if 0 < a then PosInf else if a < 0 then NegInf else NaN)"
| "np_mul (Fin a) NegInf = (if 0 < a then NegInf else if a < 0 then PosInf else NaN)"
| "np_mul PosInf (Fin b) = (if 0 < b then PosInf else if b < 0 then NegInf else NaN)"
| "np_mul NegInf (Fin b) = (if 0 < b then NegInf else if b < 0 then PosInf else NaN)"
| "np_mul PosInf PosInf = PosInf"
| "np_mul PosInf NegInf = NegInf"
| "np_mul NegInf PosInf = NegInf"
| "np_mul NegInf NegInf = PosInf"

fun np_sub :: "npfloat \<Rightarrow> npfloat \<Rightarrow> npfloat" where
  "np_sub NaN b = NaN"
| "np_sub a NaN = NaN"
| "np_sub (Fin a) (Fin b) = Fin (a - b)"
| "np_sub (Fin a) PosInf = NegInf"
| "np_sub (Fin a) NegInf = PosInf"
| "np_sub PosInf (Fin b) = PosInf"
| "np_sub NegInf (Fin b) = NegInf"
| "np_sub PosInf PosInf = NaN"
| "np_sub PosInf NegInf = PosInf"
| "np_sub NegInf PosInf = NegInf"
| "np_sub NegInf NegInf = NaN"

fun np_truediv :: "npfloat \<Rightarrow> npfloat \<Rightarrow> npfloat" where
  "np_truediv NaN b = NaN"
| "np_truediv a NaN = NaN"
| "np_truediv (Fin a) (Fin b) =
     (if b \<noteq> 0 then Fin (a / b)
      else if 0 < a then PosInf else if a < 0 then NegInf else NaN)"
| "np_truediv (Fin a) PosInf = Fin 0"
| "np_truediv (Fin a) NegInf = Fin 0"
| "np_truediv PosInf (Fin b) = (if 0 \<le> b then PosInf else NegInf)"
| "np_truediv NegInf (Fin b) = (if 0 \<le> b then NegInf else PosInf)"
| "np_truediv PosInf PosInf = NaN"
| "np_truediv PosInf NegInf = NaN"
| "np_truediv NegInf PosInf = NaN"
| "np_truediv NegInf NegInf = NaN"

text \<open>\<open>a < b\<close> on floats: false as soon as one side is NaN.\<close>

fun np_less :: "npfloat \<Rightarrow> npfloat \<Rightarrow> bool" where
  "np_less NaN b = False"
| "np_less a NaN = False"
| "np_less (Fin a) (Fin b) = (a < b)"
| "np_less (Fin a) PosInf = True"
| "np_less (Fin a) NegInf = False"
| "np_less PosInf b = False"
| "np_less NegInf (Fin b) = True"
| "np_less NegInf PosInf = True"
| "np_less NegInf NegInf = False"

fun np_is_nan :: "npfloat \<Rightarrow> bool" where
  "np_is_nan NaN = True"
| "np_is_nan a = False"

text \<open>
  A number at run time is a Python \<open>int\<close> or \<open>float\<close> (\<open>Py\<close>, finite here) or a
  \<open>numpy.float64\<close> (\<open>Np\<close>). An operation with a numpy operand follows numpy; between
  two Python numbers a division by zero raises \<open>ZeroDivisionError\<close>.
\<close>

datatype number = Py real | Np npfloat

fun to_np :: "number \<Rightarrow> npfloat" where
  "to_np (Py x) = Fin x"
| "to_np (Np v) = v"

fun num_mul :: "number \<Rightarrow> number \<Rightarrow> number" where
  "num_mul (Py x) (Py y) = Py (x * y)"
| "num_mul a b = Np (np_mul (to_np a) (to_np b))"

fun num_sub :: "number \<Rightarrow> number \<Rightarrow> number" where
  "num_sub (Py x) (Py y) = Py (x - y)"
| "num_sub a b = Np (np_sub (to_np a) (to_np b))"


definition num_less :: "number \<Rightarrow> number \<Rightarrow> bool" where
  "num_less a b = np_less (to_np a) (to_np b)"

text \<open>\<open>a >= b\<close>.\<close>

definition num_ge :: "number \<Rightarrow> number \<Rightarrow> bool" where
  "num_ge a b \<longleftrightarrow> \<not> np_is_nan (to_np a) \<and> \<not> np_is_nan (to_np b) \<and> \<not> np_less (to_np a) (to_np b)"

text \<open>\<open>min(a, b)\<close> and \<open>max(a, b)\<close> of two arguments: the first argument stays unless
  the second is strictly smaller (larger).\<close>

definition py_min :: "number \<Rightarrow> number \<Rightarrow> number" where
  "py_min a b = (if num_less b a then b else a)"

definition py_max :: "number \<Rightarrow> number \<Rightarrow> number" where
  "py_max a b = (if num_less a b then b else a)"

fun num_round :: "number \<Rightarrow> nat \<Rightarrow> number" where
  "num_round (Py x) ndigits = Py (py_round x ndigits)"
| "num_round (Np (Fin x)) ndigits = Np (Fin (py_round x ndigits))"
| "num_round (Np v) ndigits = Np v"


section \<open>src/ml-model/src/predictor.py\<close>

text \<open>
  The predictor once loaded: the preprocessor read from disk and the model. The scaler and
  the model are objects loaded from files; \<open>model_predict\<close> stands for what they do to the
  frame \<open>X\<close> of \<open>prepare_features\<close> between lines 111 and 144 (the scaler's transform, the
  model's \<open>predict\<close>, \<open>flatten\<close>, \<open>float(prediction[0])\<close>): the predicted range, or
  the exception one of them raises.
\<close>

record predictor =
  preprocessor :: preprocessor
  model_predict :: "frame \<Rightarrow> error + real"




section \<open>src/ml-model/api/app.py\<close>






text \<open>Division by a Python constant that is not zero.\<close>

fun num_div_const :: "number \<Rightarrow> real \<Rightarrow> number" where
  "num_div_const (Py x) c = Py (x / c)"
| "num_div_const (Np v) c = Np (np_truediv v (Fin c))"





section \<open>src/ml-model/train_advanced.py\<close>

text \<open>
  The float arithmetic of this script is written with its rounding: \<open>rnd\<close> maps the exact
  result of an operation to the float that is stored. With \<open>rnd = (\<lambda>x. x)\<close> the
  arithmetic is exact.

  One row of \<open>results\<close>, with the columns the selection reads.
\<close>

record result =
  Model :: string
  Test_R2 :: real
  Accuracy_pct :: real

text \<open>Lines 292 to 304: the row stored for a trained model, \<open>'Accuracy (%)': test_r2 * 100\<close>.\<close>

definition make_result :: "(real \<Rightarrow> real) \<Rightarrow> string \<Rightarrow> real \<Rightarrow> result" where
  "make_result rnd name test_r2 =
     \<lparr>Model = name, Test_R2 = test_r2, Accuracy_pct = rnd (test_r2 * 100)\<rparr>"

text \<open>\<open>results_df.sort_values('Test R\<^sup>2', ascending=False)\<close>: descending, rows of equal
  score in the order they had.\<close>

definition sort_values :: "result list \<Rightarrow> result list" where
  "sort_values results = sort_key (\<lambda>r. - Test_R2 r) results"

text \<open>\<open>weights.sum()\<close>: the elements are added from the left, each sum rounded.\<close>

definition np_sum :: "(real \<Rightarrow> real) \<Rightarrow> real list \<Rightarrow> real" where
  "np_sum rnd xs = foldl (\<lambda>acc x. rnd (acc + x)) 0 xs"

text \<open>
  Lines 368 and 369: \<open>weights = weights / weights.sum()\<close>. When the sum is zero the
  quotients are infinite or NaN and the result is \<open>None\<close>.
\<close>

definition weights :: "(real \<Rightarrow> real) \<Rightarrow> real list \<Rightarrow> real list option" where
  "weights rnd scores =
     (let total = np_sum rnd scores
      in if total = 0 then None else Some (map (\<lambda>s. rnd (s / total)) scores))"

text \<open>What sections 9 and 10 leave behind: the three variables written to the metadata,
  and the members and weights of the ensemble where section 10 built one.\<close>

record selection =
  best_model_name :: string
  best_score :: real
  best_accuracy :: real
  ensemble :: "(string list \<times> real list) option"

text \<open>
  Sections 9 and 10 (lines 343 to 405). \<open>ensemble_test_r2\<close> stands for
  \<open>r2_score(y_test, ensemble_pred_test)\<close>, a function of the members and their weights
  for fixed trained models and test data. \<open>results_df.iloc[0]\<close> raises \<open>IndexError\<close> on
  an empty frame, and \<open>r2_score\<close> raises \<open>ValueError\<close> on predictions that are not
  finite.
\<close>

definition select_model ::
  "(real \<Rightarrow> real) \<Rightarrow> (string list \<Rightarrow> real list \<Rightarrow> real) \<Rightarrow> result list \<Rightarrow> error + selection" where
  "select_model rnd ensemble_test_r2 results =
    (let results_df = sort_values results
     in case results_df of
          [] \<Rightarrow> Inl IndexError
        | best # others \<Rightarrow>
           (let single = \<lparr>best_model_name = Model best, best_score = Test_R2 best,
                          best_accuracy = Accuracy_pct best, ensemble = None\<rparr>
            in if Accuracy_pct best < 98
               then (let top_models = map Model (take 3 results_df)
                     in case weights rnd (map Test_R2 (take 3 results_df)) of
                          None \<Rightarrow> Inl ValueError
                        | Some w \<Rightarrow>
                           (let r2 = ensemble_test_r2 top_models w
                            in if r2 > Test_R2 best
                               then Inr \<lparr>best_model_name = ''Ensemble'', best_score = r2,
                                         best_accuracy = rnd (r2 * 100),
                                         ensemble = Some (top_models, w)\<rparr>
                               else Inr (single\<lparr>ensemble := Some (top_models, w)\<rparr>)))
               else Inr single))"

section \<open>src/ml-model/src/clean_real_data.py\<close>

subsection \<open>Regular expressions\<close>

text \<open>
  \<open>re.search(pattern, string)\<close> for the patterns of this file, which are built from
  literal characters, \<open>.\<close> (any character but a newline), \<open>*\<close> after a character or
  after \<open>.\<close>, a leading \<open>^\<close> and a final \<open>$\<close> (the end of the string, or the place
  before a newline that ends it).
\<close>

definition char_matches :: "char \<Rightarrow> char \<Rightarrow> bool" where
  "char_matches c t = (if c = CHR ''.'' then t \<noteq> CHR 0x0A else c = t)"

fun matchhere :: "string \<Rightarrow> string \<Rightarrow> bool"
  and matchstar :: "char \<Rightarrow> string \<Rightarrow> string \<Rightarrow> bool" where
  "matchhere [] text = True"
| "matchhere [c] text =
     (if c = CHR ''$'' then text = [] \<or> text = [CHR 0x0A]
      else (case text of [] \<Rightarrow> False | t # rest \<Rightarrow> char_matches c t))"
| "matchhere (c # d # re) text =
     (if d = CHR ''*'' then matchstar c re text
      else (case text of [] \<Rightarrow> False
            | t # rest \<Rightarrow> char_matches c t \<and> matchhere (d # re) rest))"
| "matchstar c re [] = matchhere re []"
| "matchstar c re (t # text) =
     (matchhere re (t # text) \<or> (char_matches c t \<and> matchstar c re text))"

fun search_from :: "string \<Rightarrow> string \<Rightarrow> bool" where
  "search_from re [] = matchhere re []"
| "search_from re (t # text) = (matchhere re (t # text) \<or> search_from re text)"

definition re_search :: "string \<Rightarrow> string \<Rightarrow> bool" where
  "re_search pattern text =
     (case pattern of
        CHR ''^'' # re \<Rightarrow> matchhere re text
      | _ \<Rightarrow> search_from pattern text)"

subsection \<open>RealDataCleaner.auto_detect_columns\<close>

text \<open>The two pattern tables, in the order of the dictionaries.\<close>

definition consumption_patterns :: "(string \<times> string list) list" where
  "consumption_patterns =
    [(''Battery_Capacity_kWh'',
        [''battery.*capacity'', ''capacity.*kwh'', ''battery.*kwh'',
         ''bat.*cap'', ''kwh'', ''capacity'']),
     (''Current_SoC_%'',
        [''soc'', ''state.*charge'', ''battery.*level'', ''charge.*level'',
         ''battery.*percent'', ''soc.*%'', ''current.*soc'']),
     (''Avg_Speed_kmh'',
        [''speed'', ''avg.*speed'', ''average.*speed'', ''velocity'',
         ''km.*h'', ''kmph'', ''speed.*kmh'']),
     (''Temperature_C'',
        [''temp'', ''temperature'', ''ambient.*temp'', ''temp.*c'', ''celsius'']),
     (''Terrain'',
        [''terrain'', ''road.*type'', ''route.*type'', ''driving.*condition'']),
     (''AC_Usage'',
        [''ac'', ''air.*condition'', ''hvac'', ''ac.*usage'', ''climate'']),
     (''Driving_Style'',
        [''driving.*style'', ''drive.*mode'', ''style'', ''mode'', ''driving.*behavior'']),
     (''Range_km'',
        [''range'', ''distance'', ''range.*km'', ''actual.*range'',
         ''achieved.*range'', ''km.*range''])]"

definition stations_patterns :: "(string \<times> string list) list" where
  "stations_patterns =
    [(''Station_Name'', [''name'', ''station.*name'', ''title'', ''location.*name'']),
     (''Latitude'', [''lat'', ''latitude'', ''^lat$'']),
     (''Longitude'', [''lon'', ''lng'', ''longitude'', ''^lon$'', ''^lng$'']),
     (''City'', [''city'', ''town'', ''location'', ''area'']),
     (''State'', [''state'', ''province'', ''region''])]"

text \<open>Lines 87 to 90, the loop over the patterns of one field for one column: the first
  pattern found in the lower-cased name stores the column and leaves the loop.\<close>

fun pattern_loop ::
  "string \<Rightarrow> string \<Rightarrow> string list \<Rightarrow> (string \<times> string) list \<Rightarrow> (string \<times> string) list" where
  "pattern_loop std_name col [] mapping = mapping"
| "pattern_loop std_name col (pattern # pattern_list) mapping =
     (if re_search pattern (lower col) then AList.update std_name col mapping
      else pattern_loop std_name col pattern_list mapping)"

text \<open>Lines 85 to 92, the loop over the columns for one field: it is left as soon as the
  field is in the mapping.\<close>

fun column_loop ::
  "string \<Rightarrow> string list \<Rightarrow> string list \<Rightarrow> (string \<times> string) list \<Rightarrow> (string \<times> string) list" where
  "column_loop std_name pattern_list [] mapping = mapping"
| "column_loop std_name pattern_list (col # cols) mapping =
     (let mapping = pattern_loop std_name col pattern_list mapping
      in if std_name \<in> set (map fst mapping) then mapping
         else column_loop std_name pattern_list cols mapping)"

text \<open>Lines 84 to 94, the loop over the fields of the table.\<close>

fun field_loop ::
  "(string \<times> string list) list \<Rightarrow> string list \<Rightarrow> (string \<times> string) list \<Rightarrow> (string \<times> string) list" where
  "field_loop [] cols mapping = mapping"
| "field_loop ((std_name, pattern_list) # patterns) cols mapping =
     field_loop patterns cols (column_loop std_name pattern_list cols mapping)"

definition auto_detect_columns :: "string list \<Rightarrow> string \<Rightarrow> (string \<times> string) list" where
  "auto_detect_columns cols dataset_type =
     (let patterns = (if dataset_type = ''consumption'' then consumption_patterns
                      else stations_patterns)
      in field_loop patterns cols [])"

text \<open>
  The rule of the specification, in its words: the patterns of the field are tried in
  their order, and the first pattern that matches any column fixes the mapping (to the
  first column it matches); a field none of whose patterns matches stays unmapped.
\<close>

fun first_pattern_wins :: "string list \<Rightarrow> string list \<Rightarrow> string option" where
  "first_pattern_wins [] cols = None"
| "first_pattern_wins (pattern # pattern_list) cols =
     (case find (\<lambda>col. re_search pattern (lower col)) cols of
        Some col \<Rightarrow> Some col
      | None \<Rightarrow> first_pattern_wins pattern_list cols)"

section \<open>Sample inputs\<close>

text \<open>A training frame of two rows and a later frame of one row whose terrain and driving
  style did not occur in training and which has no temperature column.\<close>

definition sample_fit :: dataframe where
  "sample_fit =
     \<lparr>Battery_Capacity_kWh = Some [50, 40],
      Current_SoC_pct = Some [80, 60],
      Avg_Speed_kmh = Some [60, 35],
      Temperature_C = Some [25, 38],
      Terrain = Some [''Highway'', ''City''],
      AC_Usage = Some [''Off'', ''On''],
      Driving_Style = Some [''Moderate'', ''Eco''],
      Range_km = Some [300, 200]\<rparr>"

definition sample_new :: dataframe where
  "sample_new =
     \<lparr>Battery_Capacity_kWh = Some [75],
      Current_SoC_pct = Some [50],
      Avg_Speed_kmh = Some [90],
      Temperature_C = None,
      Terrain = Some [''Hilly''],
      AC_Usage = Some [''on''],
      Driving_Style = Some [''Sport''],
      Range_km = None\<rparr>"






text \<open>Exact arithmetic as a rounding. Further down, four rows of results computed with it
  and a test score of the ensemble that is \<open>r\<close> whatever the members and weights.\<close>

definition exact :: "real \<Rightarrow> real" where
  "exact x = x"

text \<open>A rounding that is not exact: every result is stored too large by the relative
  amount \<open>2^-53\<close>.\<close>

definition inflate :: "real \<Rightarrow> real" where
  "inflate x = x * (1 + 1 / 2 ^ 53)"

definition sample_results :: "result list" where
  "sample_results =
     [make_result exact ''XGBoost'' (95 / 100), make_result exact ''LightGBM'' (96 / 100),
      make_result exact ''CatBoost'' (90 / 100), make_result exact ''Random Forest'' (93 / 100)]"

definition constant_score :: "real \<Rightarrow> string list \<Rightarrow> real list \<Rightarrow> real" where
  "constant_score r members ws = r"

section \<open>The formulas of the specification\<close>






section \<open>Auxiliary notions of the proofs\<close>

text \<open>The names the three parts of \<open>prepare_features\<close> can give to a column, besides the
  indicator columns.\<close>

definition numerical_names :: "string set" where
  "numerical_names = {''battery_capacity_kwh'', ''current_soc_pct'', ''current_soc_normalized'',
     ''avg_speed_kmh'', ''temperature_c'', ''available_energy_kwh''}"

definition interaction_names :: "string set" where
  "interaction_names = {''speed_terrain_highway'', ''temp_ac_interaction'',
     ''speed_deviation_from_optimal'', ''temp_deviation_from_optimal''}"

text \<open>Every column of the frame holds \<open>n\<close> cells.\<close>

definition all_length :: "nat \<Rightarrow> frame \<Rightarrow> bool" where
  "all_length n f \<longleftrightarrow> (\<forall>k c. map_of f k = Some c \<longrightarrow> length c = n)"

text \<open>A number is finite when it is a Python number or a finite \<open>numpy.float64\<close>;
  \<open>value_of\<close> is the real number it then denotes.\<close>

fun is_finite :: "number \<Rightarrow> bool" where
  "is_finite (Py x) = True"
| "is_finite (Np (Fin x)) = True"
| "is_finite (Np v) = False"

fun value_of :: "number \<Rightarrow> real" where
  "value_of (Py x) = x"
| "value_of (Np (Fin x)) = x"
| "value_of (Np v) = 0"

section \<open>The feature frame\<close>

lemma columns_setitem: "columns (setitem f n c) = (if n \<in> set (columns f) then columns f else columns f @ [n])"
  by (simp add: columns_def setitem_def update_keys)

lemma distinct_setitem: "distinct (columns f) \<Longrightarrow> distinct (columns (setitem f n c))"
  by (simp add: columns_setitem)

lemma columns_get_dummies: "columns (get_dummies s p) = map (\<lambda>v. p @ ''_'' @ v) (sort (remdups s))"
  by (simp add: columns_def get_dummies_def comp_def)

lemma distinct_get_dummies: "distinct (columns (get_dummies s p))"
  by (simp add: columns_get_dummies distinct_map inj_on_def)

lemma columns_concat_axis1: "columns (concat_axis1 f g) = columns f @ columns g"
  by (simp add: columns_def concat_axis1_def)

lemma columns_numerical:
  "distinct (columns (numerical_features df)) \<and> set (columns (numerical_features df)) \<subseteq> numerical_names"
  by (simp add: numerical_features_def columns_setitem numerical_names_def columns_def[of "[]"] split: option.split)

lemma let_inv: "P t \<Longrightarrow> (\<And>x. P x \<Longrightarrow> P (g x)) \<Longrightarrow> P (Let t g)"
  by simp

lemma distinct_interaction:
  "distinct (columns f) \<Longrightarrow> distinct (columns (interaction_features f))"
  unfolding interaction_features_def
  apply (rule let_inv[where P="\<lambda>f. distinct (columns f)"], simp add: distinct_setitem)+
  apply simp
  done

lemma distinct_categorical:
  assumes "distinct (columns f)" "set (columns f) \<subseteq> numerical_names"
  shows "distinct (columns (categorical_features df f))"
proof -
  have a: "\<And>v. ''terrain_'' @ v \<notin> set (columns f)" "\<And>v. ''driving_'' @ v \<notin> set (columns f)"
    using assms(2) by (auto simp: numerical_names_def)
  show ?thesis
    using assms(1) a
    by (auto simp: categorical_features_def Let_def columns_concat_axis1 columns_setitem
        columns_get_dummies distinct_map inj_on_def split: option.split)
qed

lemma distinct_build_features: "distinct (columns (build_features df))"
  unfolding build_features_def
  by (intro distinct_interaction distinct_categorical) (simp_all add: columns_numerical)

lemma nrows_setitem_scalar:
  "n \<notin> set (columns f) \<Longrightarrow> nrows (setitem_scalar f n v) = nrows f"
  by (cases f) (auto simp: nrows_def setitem_scalar_def setitem_def columns_def)

lemma map_of_setitem: "map_of (setitem f n c) = (map_of f)(n \<mapsto> c)"
  by (simp add: setitem_def update_conv')

lemma columns_fill_missing:
  "set (columns (fill_missing ns f)) = set (columns f) \<union> set ns"
  by (induction ns arbitrary: f) (auto simp: setitem_scalar_def columns_setitem)

lemma distinct_fill_missing:
  "distinct (columns f) \<Longrightarrow> distinct (columns (fill_missing ns f))"
  by (induction ns arbitrary: f) (auto simp: setitem_scalar_def columns_setitem)

lemma nrows_fill_missing: "nrows (fill_missing ns f) = nrows f"
  by (induction ns arbitrary: f) (auto simp: nrows_setitem_scalar)

lemma columns_map_of: "n \<in> set (columns f) \<longleftrightarrow> map_of f n \<noteq> None"
  by (simp add: columns_def map_of_eq_None_iff)

lemma map_of_fill_missing_old:
  "n \<in> set (columns f) \<Longrightarrow> map_of (fill_missing ns f) n = map_of f n"
  by (induction ns arbitrary: f) (auto simp: setitem_scalar_def columns_setitem map_of_setitem)

lemma map_of_fill_missing_new:
  "n \<notin> set (columns f) \<Longrightarrow> n \<in> set ns \<Longrightarrow>
   map_of (fill_missing ns f) n = Some (replicate (nrows f) 0)"
proof (induction ns arbitrary: f)
  case Nil then show ?case by simp
next
  case (Cons a ns)
  show ?case
  proof (cases "a = n")
    case True
    then have "n \<in> set (columns (setitem_scalar f n 0))"
      by (simp add: setitem_scalar_def columns_setitem)
    then have "map_of (fill_missing ns (setitem_scalar f n 0)) n = map_of (setitem_scalar f n 0) n"
      by (rule map_of_fill_missing_old)
    with True Cons.prems show ?thesis
      by (simp add: setitem_scalar_def map_of_setitem)
  next
    case False
    with Cons.prems have "n \<in> set ns" by simp
    moreover have "n \<notin> set (columns (setitem_scalar f a 0))"
      using False Cons.prems(1) by (simp add: setitem_scalar_def columns_setitem)
    ultimately show ?thesis
      using Cons.IH[of "setitem_scalar f a 0"] Cons.IH[of f] Cons.prems(1)
      by (auto simp: nrows_setitem_scalar)
  qed
qed

lemma filter_fst_distinct:
  "distinct (map fst f) \<Longrightarrow> map_of f n = Some c \<Longrightarrow> filter (\<lambda>x. fst x = n) f = [(n, c)]"
proof (induction f)
  case Nil then show ?case by simp
next
  case (Cons a f)
  then show ?case
    by (cases a) (auto simp: filter_empty_conv dest: map_of_SomeD image_eqI[where f=fst])
qed

lemma getitem_list_ok:
  assumes "distinct (columns f)" "set names \<subseteq> set (columns f)"
  shows "\<exists>X. getitem_list f names = Inr X \<and> columns X = names
           \<and> (\<forall>n \<in> set names. map_of X n = map_of f n)"
proof -
  have sel: "\<And>n. n \<in> set names \<Longrightarrow> filter (\<lambda>c. fst c = n) f = [(n, the (map_of f n))]"
    using assms by (intro filter_fst_distinct) (auto simp: columns_def map_of_eq_None_iff)
  define X where "X = concat (map (\<lambda>n. filter (\<lambda>c. fst c = n) f) names)"
  have X: "X = map (\<lambda>n. (n, the (map_of f n))) names"
    unfolding X_def using sel by (induction names) auto
  have "filter (\<lambda>n. n \<notin> set (columns f)) names = []"
    using assms(2) by (auto simp: filter_empty_conv)
  then have "getitem_list f names = Inr X"
    by (simp add: getitem_list_def X_def)
  moreover have "columns X = names"
    by (simp add: X columns_def comp_def)
  moreover have "\<forall>n \<in> set names. map_of X n = map_of f n"
  proof
    fix n assume n: "n \<in> set names"
    then have "map_of f n \<noteq> None" using assms(2) by (auto simp: columns_map_of)
    moreover have "map_of X n = Some (the (map_of f n))"
      unfolding X using n by (induction names) auto
    ultimately show "map_of X n = map_of f n" by auto
  qed
  ultimately show ?thesis by blast
qed

lemma all_length_setitem: "all_length n f \<Longrightarrow> length c = n \<Longrightarrow> all_length n (setitem f k c)"
  by (simp add: all_length_def map_of_setitem)

lemma all_length_getitem: "all_length n f \<Longrightarrow> k \<in> set (columns f) \<Longrightarrow> length (getitem f k) = n"
  by (auto simp: all_length_def getitem_def columns_map_of)

lemma map_of_get_dummies:
  "map_of (get_dummies s p) (p @ ''_'' @ w) =
     (if w \<in> set s then Some (map (\<lambda>x. if x = w then 1 else 0) s) else None)"
proof -
  have "map_of (map (\<lambda>v. (p @ ''_'' @ v, map (\<lambda>x. if x = v then 1 else (0::real)) s)) xs) (p @ ''_'' @ w)
        = (if w \<in> set xs then Some (map (\<lambda>x. if x = w then 1 else 0) s) else None)" for xs
    by (induction xs) auto
  from this[of "sort (remdups s)"] show ?thesis by (simp add: get_dummies_def)
qed

lemma all_length_get_dummies: "length s = n \<Longrightarrow> all_length n (get_dummies s p)"
  by (auto simp: all_length_def get_dummies_def dest!: map_of_SomeD)

lemma all_length_concat: "all_length n f \<Longrightarrow> all_length n g \<Longrightarrow> all_length n (concat_axis1 f g)"
  by (auto simp: all_length_def concat_axis1_def map_add_Some_iff)

lemma wf_dataframeD:
  assumes "wf_dataframe df n"
  shows "Battery_Capacity_kWh df = Some c \<Longrightarrow> length c = n"
    and "Current_SoC_pct df = Some c \<Longrightarrow> length c = n"
    and "Avg_Speed_kmh df = Some c \<Longrightarrow> length c = n"
    and "Temperature_C df = Some c \<Longrightarrow> length c = n"
    and "Terrain df = Some s \<Longrightarrow> length s = n"
    and "AC_Usage df = Some s \<Longrightarrow> length s = n"
    and "Driving_Style df = Some s \<Longrightarrow> length s = n"
  using assms by (simp_all add: wf_dataframe_def)

lemma all_length_numerical:
  assumes "wf_dataframe df n"
  shows "all_length n (numerical_features df)"
  unfolding numerical_features_def
  apply (rule let_inv[where P="all_length n"], simp add: all_length_def)
  apply (rule let_inv[where P="all_length n"],
         simp add: all_length_setitem wf_dataframeD[OF assms] split: option.split)+
  apply simp
  done

lemma all_length_categorical:
  assumes "wf_dataframe df n" "all_length n f"
  shows "all_length n (categorical_features df f)"
  unfolding categorical_features_def
  apply (rule let_inv[where P="all_length n"],
         simp add: assms(2) all_length_setitem all_length_concat all_length_get_dummies
                   wf_dataframeD[OF assms(1)] split: option.split)+
  apply simp
  done

lemma all_length_interaction: "all_length n f \<Longrightarrow> all_length n (interaction_features f)"
  unfolding interaction_features_def
  apply (rule let_inv[where P="all_length n"], simp add: all_length_setitem all_length_getitem)+
  apply simp
  done

lemma all_length_build: "wf_dataframe df n \<Longrightarrow> all_length n (build_features df)"
  unfolding build_features_def
  by (intro all_length_interaction all_length_categorical all_length_numerical)

lemma map_of_concat_axis1:
  "map_of (concat_axis1 f g) k = (case map_of f k of Some c \<Rightarrow> Some c | None \<Rightarrow> map_of g k)"
  by (simp add: concat_axis1_def map_add_def)

lemma map_of_numerical_None: "k \<notin> numerical_names \<Longrightarrow> map_of (numerical_features df) k = None"
  using columns_numerical[of df] columns_map_of[of k "numerical_features df"] by auto

lemma get_dummies_other_prefix:
  assumes "\<And>v. k \<noteq> p @ ''_'' @ v"
  shows "map_of (get_dummies s p) k = None"
proof -
  have "k \<notin> fst ` set (get_dummies s p)"
    using assms by (force simp: get_dummies_def)
  then show ?thesis by (simp add: map_of_eq_None_iff)
qed

lemma map_of_categorical_terrain:
  assumes "\<And>v. map_of f (''terrain_'' @ v) = None"
  shows "map_of (categorical_features df f) (''terrain_'' @ w) =
           (case Terrain df of None \<Rightarrow> None
            | Some t \<Rightarrow> if w \<in> set t then Some (map (\<lambda>x. if x = w then 1 else 0) t) else None)"
proof -
  have a: "map_of (get_dummies s ''driving'') (''terrain_'' @ w) = None" for s
    by (rule get_dummies_other_prefix) simp
  have b: "map_of (get_dummies s ''terrain'') (''terrain_'' @ w) =
     (if w \<in> set s then Some (map (\<lambda>x. if x = w then 1 else 0) s) else None)" for s
    using map_of_get_dummies[of s "''terrain''" w] by simp
  have c: "''terrain_'' @ w \<noteq> ''ac_on''" by simp
  show ?thesis
    unfolding categorical_features_def Let_def
    by (simp only: map_of_concat_axis1 map_of_setitem assms a b c fun_upd_apply
        split: option.split) simp
qed

lemma map_of_categorical_driving:
  assumes "\<And>v. map_of f (''driving_'' @ v) = None"
  shows "map_of (categorical_features df f) (''driving_'' @ w) =
           (case Driving_Style df of None \<Rightarrow> None
            | Some t \<Rightarrow> if w \<in> set t then Some (map (\<lambda>x. if x = w then 1 else 0) t) else None)"
proof -
  have a: "map_of (get_dummies s ''terrain'') (''driving_'' @ w) = None" for s
    by (rule get_dummies_other_prefix) simp
  have b: "map_of (get_dummies s ''driving'') (''driving_'' @ w) =
     (if w \<in> set s then Some (map (\<lambda>x. if x = w then 1 else 0) s) else None)" for s
    using map_of_get_dummies[of s "''driving''" w] by simp
  have c: "''driving_'' @ w \<noteq> ''ac_on''" by simp
  show ?thesis
    unfolding categorical_features_def Let_def
    by (simp only: map_of_concat_axis1 map_of_setitem assms a b c fun_upd_apply
        split: option.split) simp
qed

lemma map_of_interaction_other:
  assumes "k \<notin> interaction_names"
  shows "map_of (interaction_features f) k = map_of f k"
  unfolding interaction_features_def
  apply (rule let_inv[where P="\<lambda>g. map_of g k = map_of f k"])
  using assms apply (simp add: map_of_setitem interaction_names_def)
  apply (rule let_inv[where P="\<lambda>g. map_of g k = map_of f k"])
  using assms apply (simp add: map_of_setitem interaction_names_def)
  apply (rule let_inv[where P="\<lambda>g. map_of g k = map_of f k"])
  using assms apply (simp add: map_of_setitem interaction_names_def)
  apply (rule let_inv[where P="\<lambda>g. map_of g k = map_of f k"])
  using assms apply (simp add: map_of_setitem interaction_names_def)
  apply simp
  done

lemma map_of_build_terrain:
  "map_of (build_features df) (''terrain_'' @ w) =
     (case Terrain df of None \<Rightarrow> None
      | Some t \<Rightarrow> if w \<in> set t then Some (map (\<lambda>x. if x = w then 1 else 0) t) else None)"
  unfolding build_features_def
  by (subst map_of_interaction_other, simp add: interaction_names_def)
     (rule map_of_categorical_terrain, rule map_of_numerical_None, simp add: numerical_names_def)

lemma map_of_build_driving:
  "map_of (build_features df) (''driving_'' @ w) =
     (case Driving_Style df of None \<Rightarrow> None
      | Some t \<Rightarrow> if w \<in> set t then Some (map (\<lambda>x. if x = w then 1 else 0) t) else None)"
  unfolding build_features_def
  by (subst map_of_interaction_other, simp add: interaction_names_def)
     (rule map_of_categorical_driving, rule map_of_numerical_None, simp add: numerical_names_def)

lemma nrows_all_length:
  assumes "all_length n f" "f \<noteq> []"
  shows "nrows f = n"
proof (cases f)
  case Nil with assms(2) show ?thesis by simp
next
  case (Cons a list)
  obtain k c where a: "a = (k, c)" by (cases a)
  have "map_of f k = Some c" by (simp add: Cons a)
  with assms(1) have "length c = n" unfolding all_length_def by blast
  then show ?thesis by (simp add: nrows_def Cons a)
qed

lemma prepare_features_fit:
  "snd (prepare_features self df True) = self\<lparr>feature_names := columns (build_features df)\<rparr>"
  by (simp add: prepare_features_def Let_def split: sum.split)

lemma prepare_features_transform:
  "\<exists>X. prepare_features self df False = (Inr (X, Range_km df), self)
       \<and> columns X = feature_names self
       \<and> (\<forall>n \<in> set (feature_names self).
            map_of X n = (if n \<in> set (columns (build_features df))
                          then map_of (build_features df) n
                          else Some (replicate (nrows (build_features df)) 0)))"
proof -
  let ?f = "fill_missing (feature_names self) (build_features df)"
  have "distinct (columns ?f)"
    by (intro distinct_fill_missing distinct_build_features)
  moreover have "set (feature_names self) \<subseteq> set (columns ?f)"
    by (simp add: columns_fill_missing)
  ultimately obtain X where X: "getitem_list ?f (feature_names self) = Inr X"
    "columns X = feature_names self" "\<forall>n \<in> set (feature_names self). map_of X n = map_of ?f n"
    using getitem_list_ok by blast
  have "prepare_features self df False = (Inr (X, Range_km df), self)"
    using X(1) by (simp add: prepare_features_def Let_def)
  moreover have "\<forall>n \<in> set (feature_names self).
            map_of X n = (if n \<in> set (columns (build_features df))
                          then map_of (build_features df) n
                          else Some (replicate (nrows (build_features df)) 0))"
    using X(3) by (auto simp: map_of_fill_missing_old map_of_fill_missing_new)
  ultimately show ?thesis using X(2) by blast
qed

lemma prepare_features_fit_eq:
  "prepare_features self df True =
     prepare_features (self\<lparr>feature_names := columns (build_features df)\<rparr>) df False"
  by (simp add: prepare_features_def Let_def)

subsection \<open>Claim C1: the columns of every later frame are those recorded at fit time\<close>

text \<open>
  Claim C1. Let \<open>fitted\<close> be the preprocessor left by \<open>prepare_features(df_fit, fit=True)\<close>,
  the call \<open>fit_transform\<close> makes. The names it has recorded are those of the columns
  built from \<open>df_fit\<close>, and the fit call itself returns a frame with these columns. Then for
  every frame \<open>df\<close> (any rows, in any order, any subset of the canonical columns) the call
  \<open>prepare_features(df, fit=False)\<close>, which \<open>transform\<close> makes, raises nothing, leaves the
  preprocessor as it was and returns a frame \<open>X\<close> whose column names are exactly the
  recorded names in the recorded order. A recorded name that is not built from \<open>df\<close> is a
  column of zeros, a recorded name that is built from \<open>df\<close> carries the built column, and a
  column built from \<open>df\<close> under a name that was not recorded is not in \<open>X\<close>. \<open>X\<close> is the
  frame handed to the scaler, which returns its cells standardised, without names.
\<close>

theorem transform_reproduces_fit_columns:
  assumes "fitted = snd (prepare_features self df_fit True)"
  shows "feature_names fitted = columns (build_features df_fit) \<and>
    (\<exists>X0. prepare_features self df_fit True = (Inr (X0, Range_km df_fit), fitted)
        \<and> columns X0 = feature_names fitted) \<and>
    (\<exists>X. prepare_features fitted df False = (Inr (X, Range_km df), fitted)
        \<and> columns X = feature_names fitted
        \<and> (\<forall>n \<in> set (feature_names fitted).
              n \<notin> set (columns (build_features df)) \<longrightarrow>
              map_of X n = Some (replicate (nrows (build_features df)) 0))
        \<and> (\<forall>n \<in> set (feature_names fitted).
              n \<in> set (columns (build_features df)) \<longrightarrow>
              map_of X n = map_of (build_features df) n)
        \<and> (\<forall>n \<in> set (columns (build_features df)).
              n \<notin> set (feature_names fitted) \<longrightarrow> n \<notin> set (columns X)))"
proof -
  let ?s = "self\<lparr>feature_names := columns (build_features df_fit)\<rparr>"
  obtain X0 where X0: "prepare_features ?s df_fit False = (Inr (X0, Range_km df_fit), ?s)"
     "columns X0 = feature_names ?s"
    using prepare_features_transform[of ?s df_fit] by blast
  have f: "fitted = ?s"
    using assms X0(1) by (simp add: prepare_features_fit_eq)
  obtain X where X: "prepare_features fitted df False = (Inr (X, Range_km df), fitted)"
     "columns X = feature_names fitted"
     "\<forall>n \<in> set (feature_names fitted).
            map_of X n = (if n \<in> set (columns (build_features df))
                          then map_of (build_features df) n
                          else Some (replicate (nrows (build_features df)) 0))"
    using prepare_features_transform[of fitted df] by blast
  have "feature_names fitted = columns (build_features df_fit)" by (simp add: f)
  moreover have "\<exists>X0. prepare_features self df_fit True = (Inr (X0, Range_km df_fit), fitted)
        \<and> columns X0 = feature_names fitted"
    using X0 f by (auto simp: prepare_features_fit_eq)
  moreover have "\<forall>n \<in> set (feature_names fitted).
              n \<notin> set (columns (build_features df)) \<longrightarrow>
              map_of X n = Some (replicate (nrows (build_features df)) 0)"
    using X(3) by simp
  moreover have "\<forall>n \<in> set (feature_names fitted).
              n \<in> set (columns (build_features df)) \<longrightarrow>
              map_of X n = map_of (build_features df) n"
    using X(3) by simp
  moreover have "\<forall>n \<in> set (columns (build_features df)).
              n \<notin> set (feature_names fitted) \<longrightarrow> n \<notin> set (columns X)"
    using X(2) by simp
  ultimately show ?thesis using X(1,2) by blast
qed

theorem transform_reproduces_fit_columns_witness:
  "\<exists>X. prepare_features (snd (prepare_features init_preprocessor sample_fit True)) sample_new False
          = (Inr (X, None), snd (prepare_features init_preprocessor sample_fit True))
     \<and> columns X =
        [''battery_capacity_kwh'', ''current_soc_pct'', ''current_soc_normalized'',
         ''avg_speed_kmh'', ''temperature_c'', ''available_energy_kwh'',
         ''terrain_City'', ''terrain_Highway'', ''ac_on'', ''driving_Eco'', ''driving_Moderate'',
         ''speed_terrain_highway'', ''temp_ac_interaction'', ''speed_deviation_from_optimal'',
         ''temp_deviation_from_optimal'']
     \<and> ''temperature_c'' \<notin> set (columns (build_features sample_new))
     \<and> map_of X ''temperature_c'' = Some [0]
     \<and> ''avg_speed_kmh'' \<in> set (columns (build_features sample_new))
     \<and> map_of X ''avg_speed_kmh'' = Some [90]
     \<and> ''terrain_Hilly'' \<in> set (columns (build_features sample_new))
     \<and> ''terrain_Hilly'' \<notin> set (columns X)"
proof -
  let ?fitted = "snd (prepare_features init_preprocessor sample_fit True)"
  have names: "feature_names ?fitted =
        [''battery_capacity_kwh'', ''current_soc_pct'', ''current_soc_normalized'',
         ''avg_speed_kmh'', ''temperature_c'', ''available_energy_kwh'',
         ''terrain_City'', ''terrain_Highway'', ''ac_on'', ''driving_Eco'', ''driving_Moderate'',
         ''speed_terrain_highway'', ''temp_ac_interaction'', ''speed_deviation_from_optimal'',
         ''temp_deviation_from_optimal'']"
    by code_simp
  have built: "columns (build_features sample_new) =
        [''battery_capacity_kwh'', ''current_soc_pct'', ''current_soc_normalized'',
         ''avg_speed_kmh'', ''available_energy_kwh'', ''terrain_Hilly'', ''ac_on'',
         ''driving_Sport'', ''speed_deviation_from_optimal'']"
    by code_simp
  have rows: "nrows (build_features sample_new) = 1"
    by code_simp
  have speed: "map_of (build_features sample_new) ''avg_speed_kmh'' = Some [90]"
    by code_simp
  have y: "Range_km sample_new = None"
    by (simp add: sample_new_def)
  from transform_reproduces_fit_columns[OF refl, of init_preprocessor sample_fit sample_new]
  obtain X where X:
    "prepare_features ?fitted sample_new False = (Inr (X, Range_km sample_new), ?fitted)"
    "columns X = feature_names ?fitted"
    "\<forall>n \<in> set (feature_names ?fitted). n \<notin> set (columns (build_features sample_new)) \<longrightarrow>
        map_of X n = Some (replicate (nrows (build_features sample_new)) 0)"
    "\<forall>n \<in> set (feature_names ?fitted). n \<in> set (columns (build_features sample_new)) \<longrightarrow>
        map_of X n = map_of (build_features sample_new) n"
    by blast
  have t: "''temperature_c'' \<in> set (feature_names ?fitted)"
    and s: "''avg_speed_kmh'' \<in> set (feature_names ?fitted)"
    and h: "''terrain_Hilly'' \<notin> set (feature_names ?fitted)"
    unfolding names by simp_all
  have t': "''temperature_c'' \<notin> set (columns (build_features sample_new))"
    and s': "''avg_speed_kmh'' \<in> set (columns (build_features sample_new))"
    and h': "''terrain_Hilly'' \<in> set (columns (build_features sample_new))"
    unfolding built by simp_all
  have "map_of X ''temperature_c'' = Some [0]"
    using X(3) t t' rows by simp
  moreover have "map_of X ''avg_speed_kmh'' = Some [90]"
    using X(4) s s' speed by simp
  moreover have "''terrain_Hilly'' \<notin> set (columns X)"
    using h X(2) by simp
  ultimately show ?thesis
    using X(1,2) t' s' h' unfolding y names by blast
qed

lemma indicator_zero:
  assumes fn: "k \<in> set (feature_names fitted)"
    and X: "\<forall>n \<in> set (feature_names fitted).
            map_of X n = (if n \<in> set (columns (build_features df))
                          then map_of (build_features df) n
                          else Some (replicate (nrows (build_features df)) 0))"
    and wf: "wf_dataframe df n" and i: "i < n"
    and ne: "build_features df \<noteq> []"
    and col: "map_of (build_features df) k =
               (if w \<in> set t then Some (map (\<lambda>x. if x = w then 1 else 0) t) else None)"
    and t: "length t = n" "t ! i \<noteq> w"
  shows "\<exists>c. map_of X k = Some c \<and> length c = n \<and> c ! i = 0"
proof (cases "k \<in> set (columns (build_features df))")
  case True
  then have "w \<in> set t" using col by (auto simp: columns_map_of split: if_splits)
  then have "map_of X k = Some (map (\<lambda>x. if x = w then 1 else 0) t)"
    using X fn True col by simp
  then show ?thesis using t i by simp
next
  case False
  have "nrows (build_features df) = n"
    using all_length_build[OF wf] ne by (rule nrows_all_length)
  then have "map_of X k = Some (replicate n 0)" using X fn False by simp
  then show ?thesis using i by simp
qed

subsection \<open>Claim C2: a category not seen at fit time gives zero indicators\<close>

text \<open>
  Claim C2. Let \<open>fitted\<close> be the preprocessor left by the fit call on \<open>df_fit\<close>, and let
  \<open>df\<close> be a well-formed frame of \<open>n\<close> rows with a row \<open>i\<close>. The call
  \<open>prepare_features(df, fit=False)\<close> raises nothing and returns a frame \<open>X\<close>. If the
  \<open>Terrain\<close> value of row \<open>i\<close> is none of the \<open>Terrain\<close> values of \<open>df_fit\<close>, then every
  indicator column \<open>terrain_w\<close> of a fit-time value \<open>w\<close> is a column of \<open>X\<close> and holds 0 in
  row \<open>i\<close>; the same holds for \<open>Driving_Style\<close> and the columns \<open>driving_w\<close>.
\<close>

theorem unseen_category_all_zero:
  assumes "fitted = snd (prepare_features self df_fit True)"
    and "wf_dataframe df n" and "i < n"
  shows "\<exists>X. prepare_features fitted df False = (Inr (X, Range_km df), fitted) \<and>
     (\<forall>t0 t. Terrain df_fit = Some t0 \<and> Terrain df = Some t \<and> t ! i \<notin> set t0 \<longrightarrow>
        (\<forall>w \<in> set t0. \<exists>c. map_of X (''terrain_'' @ w) = Some c \<and> length c = n \<and> c ! i = 0)) \<and>
     (\<forall>d0 d. Driving_Style df_fit = Some d0 \<and> Driving_Style df = Some d \<and> d ! i \<notin> set d0 \<longrightarrow>
        (\<forall>w \<in> set d0. \<exists>c. map_of X (''driving_'' @ w) = Some c \<and> length c = n \<and> c ! i = 0))"
proof -
  have f: "feature_names fitted = columns (build_features df_fit)"
    using assms(1) by (simp add: prepare_features_fit)
  obtain X where X: "prepare_features fitted df False = (Inr (X, Range_km df), fitted)"
     "\<forall>n \<in> set (feature_names fitted).
            map_of X n = (if n \<in> set (columns (build_features df))
                          then map_of (build_features df) n
                          else Some (replicate (nrows (build_features df)) 0))"
    using prepare_features_transform[of fitted df] by blast
  have terrain: "\<exists>c. map_of X (''terrain_'' @ w) = Some c \<and> length c = n \<and> c ! i = 0"
    if h: "Terrain df_fit = Some t0" "Terrain df = Some t" "t ! i \<notin> set t0" "w \<in> set t0"
    for t0 t w
  proof (rule indicator_zero[OF _ X(2) assms(2,3)])
    show "''terrain_'' @ w \<in> set (feature_names fitted)"
      unfolding f columns_map_of using h(1,4) by (simp only: map_of_build_terrain) simp
    have len: "length t = n" using wf_dataframeD(5)[OF assms(2) h(2)] .
    then have "t ! i \<in> set t" using assms(3) by simp
    then have "map_of (build_features df) (''terrain_'' @ (t ! i)) \<noteq> None"
      using h(2) by (simp only: map_of_build_terrain) simp
    then show "build_features df \<noteq> []" by auto
    show "map_of (build_features df) (''terrain_'' @ w) =
               (if w \<in> set t then Some (map (\<lambda>x. if x = w then 1 else 0) t) else None)"
      using h(2) by (simp only: map_of_build_terrain) simp
    show "length t = n" by (rule len)
    show "t ! i \<noteq> w" using h(3,4) by auto
  qed
  have driving: "\<exists>c. map_of X (''driving_'' @ w) = Some c \<and> length c = n \<and> c ! i = 0"
    if h: "Driving_Style df_fit = Some t0" "Driving_Style df = Some t" "t ! i \<notin> set t0" "w \<in> set t0"
    for t0 t w
  proof (rule indicator_zero[OF _ X(2) assms(2,3)])
    show "''driving_'' @ w \<in> set (feature_names fitted)"
      unfolding f columns_map_of using h(1,4) by (simp only: map_of_build_driving) simp
    have len: "length t = n" using wf_dataframeD(7)[OF assms(2) h(2)] .
    then have "t ! i \<in> set t" using assms(3) by simp
    then have "map_of (build_features df) (''driving_'' @ (t ! i)) \<noteq> None"
      using h(2) by (simp only: map_of_build_driving) simp
    then show "build_features df \<noteq> []" by auto
    show "map_of (build_features df) (''driving_'' @ w) =
               (if w \<in> set t then Some (map (\<lambda>x. if x = w then 1 else 0) t) else None)"
      using h(2) by (simp only: map_of_build_driving) simp
    show "length t = n" by (rule len)
    show "t ! i \<noteq> w" using h(3,4) by auto
  qed
  show ?thesis using X(1) terrain driving by blast
qed

theorem unseen_category_all_zero_witness:
  "wf_dataframe sample_new 1 \<and>
   Terrain sample_fit = Some [''Highway'', ''City''] \<and> Terrain sample_new = Some [''Hilly''] \<and>
   [''Hilly''] ! 0 \<notin> set [''Highway'', ''City''] \<and>
   Driving_Style sample_fit = Some [''Moderate'', ''Eco''] \<and>
   Driving_Style sample_new = Some [''Sport''] \<and>
   [''Sport''] ! 0 \<notin> set [''Moderate'', ''Eco''] \<and>
   (\<exists>X. prepare_features (snd (prepare_features init_preprocessor sample_fit True)) sample_new False
          = (Inr (X, None), snd (prepare_features init_preprocessor sample_fit True))
     \<and> map_of X ''terrain_Highway'' = Some [0]
     \<and> map_of X ''terrain_City'' = Some [0]
     \<and> map_of X ''driving_Moderate'' = Some [0]
     \<and> map_of X ''driving_Eco'' = Some [0])"
proof -
  let ?fitted = "snd (prepare_features init_preprocessor sample_fit True)"
  have wf: "wf_dataframe sample_new 1"
    by (simp add: wf_dataframe_def sample_new_def)
  have tf: "Terrain sample_fit = Some [''Highway'', ''City'']"
    and tn: "Terrain sample_new = Some [''Hilly'']"
    and df: "Driving_Style sample_fit = Some [''Moderate'', ''Eco'']"
    and dn: "Driving_Style sample_new = Some [''Sport'']"
    and y: "Range_km sample_new = None"
    by (simp_all add: sample_fit_def sample_new_def)
  have tu: "[''Hilly''] ! 0 \<notin> set [''Highway'', ''City'']"
    and du: "[''Sport''] ! 0 \<notin> set [''Moderate'', ''Eco'']"
    by simp_all
  have one: "c = [0]" if "length c = 1" "c ! 0 = 0" for c :: "real list"
    using that by (cases c) auto
  from unseen_category_all_zero[OF refl wf, of 0 init_preprocessor sample_fit]
  obtain X where X:
    "prepare_features ?fitted sample_new False = (Inr (X, Range_km sample_new), ?fitted)"
    "\<forall>t0 t. Terrain sample_fit = Some t0 \<and> Terrain sample_new = Some t \<and> t ! 0 \<notin> set t0 \<longrightarrow>
        (\<forall>w \<in> set t0. \<exists>c. map_of X (''terrain_'' @ w) = Some c \<and> length c = 1 \<and> c ! 0 = 0)"
    "\<forall>d0 d. Driving_Style sample_fit = Some d0 \<and> Driving_Style sample_new = Some d \<and> d ! 0 \<notin> set d0 \<longrightarrow>
        (\<forall>w \<in> set d0. \<exists>c. map_of X (''driving_'' @ w) = Some c \<and> length c = 1 \<and> c ! 0 = 0)"
    by auto
  have t: "\<forall>w \<in> set [''Highway'', ''City''].
             \<exists>c. map_of X (''terrain_'' @ w) = Some c \<and> length c = 1 \<and> c ! 0 = 0"
    using X(2) tf tn tu by blast
  have d: "\<forall>w \<in> set [''Moderate'', ''Eco''].
             \<exists>c. map_of X (''driving_'' @ w) = Some c \<and> length c = 1 \<and> c ! 0 = 0"
    using X(3) df dn du by blast
  have "map_of X ''terrain_Highway'' = Some [0]" "map_of X ''terrain_City'' = Some [0]"
    using t one by auto
  moreover have "map_of X ''driving_Moderate'' = Some [0]" "map_of X ''driving_Eco'' = Some [0]"
    using d one by auto
  ultimately show ?thesis
    using wf tf tn df dn tu du X(1) unfolding y by blast
qed

section \<open>The predictor\<close>



subsection \<open>Claim C8: confidence bands\<close>



subsection \<open>Claim C10: the consumption of charge per kilometre\<close>




section \<open>The API handlers\<close>


lemma fin_mul [simp]:
  "is_finite a \<Longrightarrow> is_finite b \<Longrightarrow> is_finite (num_mul a b)"
  "is_finite a \<Longrightarrow> is_finite b \<Longrightarrow> value_of (num_mul a b) = value_of a * value_of b"
  by (cases a rule: is_finite.cases; cases b rule: is_finite.cases; simp)+

lemma fin_sub [simp]:
  "is_finite a \<Longrightarrow> is_finite b \<Longrightarrow> is_finite (num_sub a b)"
  "is_finite a \<Longrightarrow> is_finite b \<Longrightarrow> value_of (num_sub a b) = value_of a - value_of b"
  by (cases a rule: is_finite.cases; cases b rule: is_finite.cases; simp)+

lemma fin_div_const [simp]:
  "is_finite a \<Longrightarrow> k \<noteq> 0 \<Longrightarrow> is_finite (num_div_const a k)"
  "is_finite a \<Longrightarrow> k \<noteq> 0 \<Longrightarrow> value_of (num_div_const a k) = value_of a / k"
  by (cases a rule: is_finite.cases; simp)+


lemma fin_less [simp]:
  "is_finite a \<Longrightarrow> is_finite b \<Longrightarrow> num_less a b \<longleftrightarrow> value_of a < value_of b"
  by (cases a rule: is_finite.cases; cases b rule: is_finite.cases; simp add: num_less_def)

lemma fin_ge [simp]:
  "is_finite a \<Longrightarrow> is_finite b \<Longrightarrow> num_ge a b \<longleftrightarrow> value_of b \<le> value_of a"
  by (cases a rule: is_finite.cases; cases b rule: is_finite.cases; auto simp add: num_ge_def)

lemma fin_min [simp]:
  "is_finite a \<Longrightarrow> is_finite b \<Longrightarrow> is_finite (py_min a b)"
  "is_finite a \<Longrightarrow> is_finite b \<Longrightarrow> value_of (py_min a b) = min (value_of a) (value_of b)"
  by (auto simp: py_min_def)

lemma fin_max [simp]:
  "is_finite a \<Longrightarrow> is_finite b \<Longrightarrow> is_finite (py_max a b)"
  "is_finite a \<Longrightarrow> is_finite b \<Longrightarrow> value_of (py_max a b) = max (value_of a) (value_of b)"
  by (auto simp: py_max_def)

lemma fin_round [simp]:
  "is_finite a \<Longrightarrow> is_finite (num_round a n)"
  "is_finite a \<Longrightarrow> value_of (num_round a n) = py_round (value_of a) n"
  by (cases a rule: is_finite.cases; simp)+





subsection \<open>Claim C5: a predicted consumption that is not positive\<close>




subsection \<open>Claim C6: the charging time\<close>








subsection \<open>Claim C7: the charge recommendation of the scenario\<close>



section \<open>The column mapper\<close>

lemma pattern_loop_eq:
  "pattern_loop std_name col pattern_list mapping =
     (if \<exists>pattern \<in> set pattern_list. re_search pattern (lower col)
      then AList.update std_name col mapping else mapping)"
  by (induction pattern_list) auto

lemma column_loop_eq:
  assumes "std_name \<notin> set (map fst mapping)"
  shows "column_loop std_name pattern_list cols mapping =
     (case find (\<lambda>col. \<exists>pattern \<in> set pattern_list. re_search pattern (lower col)) cols of
        None \<Rightarrow> mapping
      | Some col \<Rightarrow> AList.update std_name col mapping)"
  using assms
  by (induction cols) (auto simp: pattern_loop_eq Let_def dom_update)

lemma keys_column_loop:
  "set (map fst (column_loop std_name pattern_list cols mapping))
     \<subseteq> insert std_name (set (map fst mapping))"
  by (induction cols) (auto simp: pattern_loop_eq Let_def dom_update split: if_splits)

lemma distinct_column_loop:
  "distinct (map fst mapping) \<Longrightarrow>
   distinct (map fst (column_loop std_name pattern_list cols mapping))"
  by (induction cols) (auto simp: pattern_loop_eq Let_def distinct_update dom_update)

lemma map_of_column_loop_other:
  "k \<noteq> std_name \<Longrightarrow>
   map_of (column_loop std_name pattern_list cols mapping) k = map_of mapping k"
  by (induction cols) (auto simp: pattern_loop_eq Let_def update_conv' dom_update)

lemma map_of_column_loop_same:
  assumes "std_name \<notin> set (map fst mapping)"
  shows "map_of (column_loop std_name pattern_list cols mapping) std_name =
     find (\<lambda>col. \<exists>pattern \<in> set pattern_list. re_search pattern (lower col)) cols"
proof -
  have "map_of mapping std_name = None"
    using assms by (simp add: map_of_eq_None_iff)
  then show ?thesis
    unfolding column_loop_eq[OF assms]
    by (simp add: update_conv' split: option.split)
qed

lemma distinct_field_loop:
  "distinct (map fst mapping) \<Longrightarrow> distinct (map fst (field_loop patterns cols mapping))"
  by (induction patterns cols mapping rule: field_loop.induct)
     (simp_all add: distinct_column_loop)

lemma map_of_field_loop:
  assumes "distinct (map fst patterns)"
    and "set (map fst patterns) \<inter> set (map fst mapping) = {}"
  shows "map_of (field_loop patterns cols mapping) k =
     (case map_of patterns k of
        None \<Rightarrow> map_of mapping k
      | Some pattern_list \<Rightarrow>
          find (\<lambda>col. \<exists>pattern \<in> set pattern_list. re_search pattern (lower col)) cols)"
  using assms
proof (induction patterns cols mapping rule: field_loop.induct)
  case (1 cols mapping)
  then show ?case by simp
next
  case (2 std_name pattern_list patterns cols mapping)
  let ?m = "column_loop std_name pattern_list cols mapping"
  have new: "std_name \<notin> set (map fst mapping)" "std_name \<notin> set (map fst patterns)"
    using "2.prems" by auto
  have d: "distinct (map fst patterns)" using "2.prems"(1) by simp
  have disj: "set (map fst patterns) \<inter> set (map fst ?m) = {}"
  proof -
    have "set (map fst patterns) \<inter> insert std_name (set (map fst mapping)) = {}"
      using new(2) "2.prems"(2) by auto
    then show ?thesis
      using keys_column_loop[of std_name pattern_list cols mapping] by blast
  qed
  have IH: "map_of (field_loop patterns cols ?m) k =
     (case map_of patterns k of
        None \<Rightarrow> map_of ?m k
      | Some pattern_list \<Rightarrow>
          find (\<lambda>col. \<exists>pattern \<in> set pattern_list. re_search pattern (lower col)) cols)"
    by (rule "2.IH"[OF d disj])
  show ?case
  proof (cases "k = std_name")
    case True
    have "map_of patterns k = None"
      using new(2) True by (simp add: map_of_eq_None_iff)
    then show ?thesis
      using IH True map_of_column_loop_same[OF new(1)] by simp
  next
    case False
    then show ?thesis
      using IH map_of_column_loop_other[OF False] by (simp split: option.split)
  qed
qed

lemma distinct_pattern_tables:
  "distinct (map fst consumption_patterns)" "distinct (map fst stations_patterns)"
  by (simp_all add: consumption_patterns_def stations_patterns_def)

subsection \<open>Claim C9: which column a field is mapped to\<close>

text \<open>
  Claim C9, amended. For every list of column names and every field, the mapping holds
  at most one column for the field (its keys are distinct). A field of the table is
  mapped to the first column, in the order of the columns, whose lower-cased name is
  matched by any pattern of the field, and the column is stored under its original name;
  the order of the patterns plays no part. A field none of whose patterns matches any
  column, and a name that is no field of the table, are absent from the mapping.
\<close>

theorem auto_detect_columns_first_column:
  "distinct (map fst (auto_detect_columns cols dataset_type)) \<and>
   map_of (auto_detect_columns cols dataset_type) std_name =
     (case map_of (if dataset_type = ''consumption'' then consumption_patterns
                   else stations_patterns) std_name of
        None \<Rightarrow> None
      | Some pattern_list \<Rightarrow>
          find (\<lambda>col. \<exists>pattern \<in> set pattern_list. re_search pattern (lower col)) cols)"
proof -
  let ?patterns = "if dataset_type = ''consumption'' then consumption_patterns
                   else stations_patterns"
  have d: "distinct (map fst ?patterns)"
    by (simp add: distinct_pattern_tables)
  have "map_of (field_loop ?patterns cols []) std_name =
     (case map_of ?patterns std_name of
        None \<Rightarrow> None
      | Some pattern_list \<Rightarrow>
          find (\<lambda>col. \<exists>pattern \<in> set pattern_list. re_search pattern (lower col)) cols)"
    using map_of_field_loop[OF d, of "[]" cols std_name] by (simp split: option.split)
  moreover have "distinct (map fst (field_loop ?patterns cols []))"
    by (rule distinct_field_loop) simp
  ultimately show ?thesis
    by (simp add: auto_detect_columns_def Let_def)
qed

theorem auto_detect_columns_first_column_witness:
  "map_of (auto_detect_columns [''Trip Distance'', ''SOC (%)'', ''Vehicle Range''] ''consumption'')
     ''Range_km'' = Some ''Trip Distance'' \<and>
   map_of (auto_detect_columns [''Trip Distance'', ''SOC (%)'', ''Vehicle Range''] ''consumption'')
     ''Terrain'' = None"
proof -
  let ?cols = "[''Trip Distance'', ''SOC (%)'', ''Vehicle Range'']"
  have r: "map_of consumption_patterns ''Range_km'' =
      Some [''range'', ''distance'', ''range.*km'', ''actual.*range'',
            ''achieved.*range'', ''km.*range'']"
    and t: "map_of consumption_patterns ''Terrain'' =
      Some [''terrain'', ''road.*type'', ''route.*type'', ''driving.*condition'']"
    by (simp_all add: consumption_patterns_def)
  have f1: "find (\<lambda>col. \<exists>pattern \<in> set [''range'', ''distance'', ''range.*km'', ''actual.*range'',
            ''achieved.*range'', ''km.*range'']. re_search pattern (lower col)) ?cols
          = Some ''Trip Distance''"
    by code_simp
  have f2: "find (\<lambda>col. \<exists>pattern \<in> set [''terrain'', ''road.*type'', ''route.*type'',
            ''driving.*condition'']. re_search pattern (lower col)) ?cols = None"
    by code_simp
  show ?thesis
    using auto_detect_columns_first_column[of ?cols "''consumption''" "''Range_km''"]
      auto_detect_columns_first_column[of ?cols "''consumption''" "''Terrain''"]
    by (simp only: r t f1 f2 if_True option.case refl simp_thms)
qed

text \<open>The counterexample to claim C9 as stated: with the columns \<open>Capacity_Total\<close> and
  \<open>Battery_Capacity\<close>, the first pattern of \<open>Battery_Capacity_kWh\<close> that matches any
  column is \<open>battery.*capacity\<close>, which matches \<open>Battery_Capacity\<close> only, and the rule of
  the claim maps the field to that column; the code maps it to \<open>Capacity_Total\<close>, which
  only the last pattern matches.\<close>

theorem first_column_not_first_pattern:
  "map_of consumption_patterns ''Battery_Capacity_kWh'' =
     Some [''battery.*capacity'', ''capacity.*kwh'', ''battery.*kwh'', ''bat.*cap'', ''kwh'',
           ''capacity''] \<and>
   map_of (auto_detect_columns [''Capacity_Total'', ''Battery_Capacity''] ''consumption'')
     ''Battery_Capacity_kWh'' = Some ''Capacity_Total'' \<and>
   first_pattern_wins
     [''battery.*capacity'', ''capacity.*kwh'', ''battery.*kwh'', ''bat.*cap'', ''kwh'',
      ''capacity'']
     [''Capacity_Total'', ''Battery_Capacity''] = Some ''Battery_Capacity'' \<and>
   re_search ''battery.*capacity'' (lower ''Battery_Capacity'') \<and>
   \<not> re_search ''battery.*capacity'' (lower ''Capacity_Total'')"
  by code_simp

section \<open>Model selection and the ensemble\<close>

lemma sort_values_best:
  assumes "sort_values results = best # others"
  shows "\<forall>r \<in> set results. Test_R2 r \<le> Test_R2 best"
proof
  fix r assume r: "r \<in> set results"
  have eq: "sort_key (\<lambda>r. - Test_R2 r) results = best # others"
    using assms by (simp add: sort_values_def)
  have "sorted (map (\<lambda>r. - Test_R2 r) (sort_key (\<lambda>r. - Test_R2 r) results))"
    by (rule sorted_sort_key)
  then have s: "sorted (map (\<lambda>r. - Test_R2 r) (best # others))"
    unfolding eq .
  have "set (sort_key (\<lambda>r. - Test_R2 r) results) = set results"
    by simp
  then have "set (best # others) = set results"
    unfolding eq .
  then have "r = best \<or> r \<in> set others" using r by auto
  then show "Test_R2 r \<le> Test_R2 best"
    using s by auto
qed

subsection \<open>Claim C4: when the ensemble is built and when it is selected\<close>

text \<open>
  Claim C4. Let \<open>best\<close> be the first row of the results sorted by test score; no row has a
  higher score. If its accuracy is not below 98, no ensemble is built and \<open>best\<close> is
  selected. If its accuracy is below 98, the ensemble of the three first rows is built
  with their weights \<open>w\<close>; it is selected, under the name \<open>Ensemble\<close> and with its own
  score, exactly when its test score is strictly above the score of \<open>best\<close>, and otherwise
  \<open>best\<close> stays selected. (If the weights are not finite the script stops with an error.)
  The accuracy of a row is its test score times 100. The outcome is a function of the
  results and of the test score of the ensemble: two evaluations that give the ensemble
  the same score select the same artifact.
\<close>

theorem selection_rule:
  assumes "sort_values results = best # others"
  shows "(\<forall>r \<in> set results. Test_R2 r \<le> Test_R2 best) \<and>
    (\<not> Accuracy_pct best < 98 \<longrightarrow>
       select_model rnd e results =
         Inr \<lparr>best_model_name = Model best, best_score = Test_R2 best,
              best_accuracy = Accuracy_pct best, ensemble = None\<rparr>) \<and>
    (Accuracy_pct best < 98 \<longrightarrow>
       (\<forall>w. weights rnd (map Test_R2 (take 3 (best # others))) = Some w \<longrightarrow>
          select_model rnd e results =
            Inr (if e (map Model (take 3 (best # others))) w > Test_R2 best
                 then \<lparr>best_model_name = ''Ensemble'',
                       best_score = e (map Model (take 3 (best # others))) w,
                       best_accuracy = rnd (e (map Model (take 3 (best # others))) w * 100),
                       ensemble = Some (map Model (take 3 (best # others)), w)\<rparr>
                 else \<lparr>best_model_name = Model best, best_score = Test_R2 best,
                       best_accuracy = Accuracy_pct best,
                       ensemble = Some (map Model (take 3 (best # others)), w)\<rparr>)) \<and>
       (weights rnd (map Test_R2 (take 3 (best # others))) = None \<longrightarrow>
          select_model rnd e results = Inl ValueError)) \<and>
    (\<forall>name r2. Accuracy_pct (make_result rnd name r2) = rnd (r2 * 100)) \<and>
    (\<forall>e'. (\<forall>w. e' (map Model (take 3 (best # others))) w
               = e (map Model (take 3 (best # others))) w) \<longrightarrow>
          select_model rnd e' results = select_model rnd e results)"
proof (intro conjI)
  show "\<forall>r \<in> set results. Test_R2 r \<le> Test_R2 best"
    by (rule sort_values_best[OF assms])
  show "\<not> Accuracy_pct best < 98 \<longrightarrow>
       select_model rnd e results =
         Inr \<lparr>best_model_name = Model best, best_score = Test_R2 best,
              best_accuracy = Accuracy_pct best, ensemble = None\<rparr>"
    by (simp add: select_model_def assms)
  show "Accuracy_pct best < 98 \<longrightarrow>
       (\<forall>w. weights rnd (map Test_R2 (take 3 (best # others))) = Some w \<longrightarrow>
          select_model rnd e results =
            Inr (if e (map Model (take 3 (best # others))) w > Test_R2 best
                 then \<lparr>best_model_name = ''Ensemble'',
                       best_score = e (map Model (take 3 (best # others))) w,
                       best_accuracy = rnd (e (map Model (take 3 (best # others))) w * 100),
                       ensemble = Some (map Model (take 3 (best # others)), w)\<rparr>
                 else \<lparr>best_model_name = Model best, best_score = Test_R2 best,
                       best_accuracy = Accuracy_pct best,
                       ensemble = Some (map Model (take 3 (best # others)), w)\<rparr>)) \<and>
       (weights rnd (map Test_R2 (take 3 (best # others))) = None \<longrightarrow>
          select_model rnd e results = Inl ValueError)"
    by (simp add: select_model_def assms Let_def)
  show "\<forall>name r2. Accuracy_pct (make_result rnd name r2) = rnd (r2 * 100)"
    by (simp add: make_result_def)
  show "\<forall>e'. (\<forall>w. e' (map Model (take 3 (best # others))) w
               = e (map Model (take 3 (best # others))) w) \<longrightarrow>
          select_model rnd e' results = select_model rnd e results"
    by (simp add: select_model_def assms Let_def split: option.split)
qed

theorem selection_rule_witness:
  "sort_values sample_results =
     make_result exact ''LightGBM'' (96 / 100) #
     [make_result exact ''XGBoost'' (95 / 100), make_result exact ''Random Forest'' (93 / 100),
      make_result exact ''CatBoost'' (90 / 100)] \<and>
   Accuracy_pct (make_result exact ''LightGBM'' (96 / 100)) < 98 \<and>
   select_model exact (constant_score (97 / 100)) sample_results =
     Inr \<lparr>best_model_name = ''Ensemble'', best_score = 97 / 100, best_accuracy = 97,
          ensemble = Some ([''LightGBM'', ''XGBoost'', ''Random Forest''],
                           [24 / 71, 95 / 284, 93 / 284])\<rparr> \<and>
   select_model exact (constant_score (95 / 100)) sample_results =
     Inr \<lparr>best_model_name = ''LightGBM'', best_score = 96 / 100, best_accuracy = 96,
          ensemble = Some ([''LightGBM'', ''XGBoost'', ''Random Forest''],
                           [24 / 71, 95 / 284, 93 / 284])\<rparr>"
proof -
  let ?best = "make_result exact ''LightGBM'' (96 / 100)"
  let ?others = "[make_result exact ''XGBoost'' (95 / 100),
      make_result exact ''Random Forest'' (93 / 100), make_result exact ''CatBoost'' (90 / 100)]"
  have s: "sort_values sample_results = ?best # ?others"
    by (simp add: sort_values_def sample_results_def make_result_def)
  have a: "Accuracy_pct ?best < 98" "Accuracy_pct ?best = 96" "Model ?best = ''LightGBM''"
    "Test_R2 ?best = 96 / 100"
    by (simp_all add: make_result_def exact_def)
  have w: "weights exact (map Test_R2 (take 3 (?best # ?others)))
             = Some [24 / 71, 95 / 284, 93 / 284]"
    by (simp add: weights_def np_sum_def make_result_def exact_def Let_def)
  have m: "map Model (take 3 (?best # ?others)) = [''LightGBM'', ''XGBoost'', ''Random Forest'']"
    by (simp add: make_result_def)
  have t: "select_model exact e sample_results =
            Inr (if e (map Model (take 3 (?best # ?others))) [24 / 71, 95 / 284, 93 / 284]
                      > Test_R2 ?best
                 then \<lparr>best_model_name = ''Ensemble'',
                       best_score = e (map Model (take 3 (?best # ?others)))
                                      [24 / 71, 95 / 284, 93 / 284],
                       best_accuracy = exact (e (map Model (take 3 (?best # ?others)))
                                      [24 / 71, 95 / 284, 93 / 284] * 100),
                       ensemble = Some (map Model (take 3 (?best # ?others)),
                                        [24 / 71, 95 / 284, 93 / 284])\<rparr>
                 else \<lparr>best_model_name = Model ?best, best_score = Test_R2 ?best,
                       best_accuracy = Accuracy_pct ?best,
                       ensemble = Some (map Model (take 3 (?best # ?others)),
                                        [24 / 71, 95 / 284, 93 / 284])\<rparr>)" for e
    by (rule selection_rule[OF s, of exact e, THEN conjunct2, THEN conjunct2, THEN conjunct1,
          THEN mp, OF a(1), THEN conjunct1, rule_format, OF w])
  have "select_model exact (constant_score (97 / 100)) sample_results =
     Inr \<lparr>best_model_name = ''Ensemble'', best_score = 97 / 100, best_accuracy = 97,
          ensemble = Some ([''LightGBM'', ''XGBoost'', ''Random Forest''],
                           [24 / 71, 95 / 284, 93 / 284])\<rparr>"
    unfolding t m a(2-4) constant_score_def exact_def by simp
  moreover have "select_model exact (constant_score (95 / 100)) sample_results =
     Inr \<lparr>best_model_name = ''LightGBM'', best_score = 96 / 100, best_accuracy = 96,
          ensemble = Some ([''LightGBM'', ''XGBoost'', ''Random Forest''],
                           [24 / 71, 95 / 284, 93 / 284])\<rparr>"
    unfolding t m a(2-4) constant_score_def exact_def by simp
  ultimately show ?thesis using s a(1) by (intro conjI)
qed

subsection \<open>Rounding errors\<close>

text \<open>A rounding \<open>rnd\<close> with \<open>\<bar>rnd x - x\<bar> \<le> u * \<bar>x\<bar>\<close> for all \<open>x\<close> is one with relative
  error at most \<open>u\<close>: double precision with rounding to nearest has \<open>u = 2^-53\<close> on
  its normal range.\<close>

lemma rnd_bounds:
  fixes rnd :: "real \<Rightarrow> real"
  assumes "\<And>x. \<bar>rnd x - x\<bar> \<le> u * \<bar>x\<bar>" "0 \<le> x"
  shows "x * (1 - u) \<le> rnd x" "rnd x \<le> x * (1 + u)"
proof -
  have "\<bar>rnd x - x\<bar> \<le> u * x"
    using assms(1)[of x] assms(2) by simp
  then have "rnd x - x \<le> u * x" "x - rnd x \<le> u * x"
    by linarith+
  then show "x * (1 - u) \<le> rnd x" "rnd x \<le> x * (1 + u)"
    by (simp_all add: algebra_simps)
qed

lemma rnd_nonneg:
  fixes rnd :: "real \<Rightarrow> real"
  assumes "\<And>x. \<bar>rnd x - x\<bar> \<le> u * \<bar>x\<bar>" "0 \<le> x" "u \<le> 1"
  shows "0 \<le> rnd x"
proof -
  have "0 \<le> x * (1 - u)" using assms(2,3) by simp
  then show ?thesis using rnd_bounds(1)[OF assms(1,2)] by linarith
qed

lemma cube_lower: "0 \<le> u \<Longrightarrow> u \<le> 1 / 8 \<Longrightarrow> 1 - 3 * u \<le> (1 - u) ^ 3" for u :: real
proof -
  assume u: "0 \<le> u" "u \<le> 1 / 8"
  have "(1 - u) ^ 3 = 1 - 3 * u + u * u * (3 - u)" by (simp add: power3_eq_cube algebra_simps)
  moreover have "0 \<le> u * u * (3 - u)" using u by simp
  ultimately show ?thesis by linarith
qed

lemma cube_upper: "0 \<le> u \<Longrightarrow> u \<le> 1 / 8 \<Longrightarrow> (1 + u) ^ 3 \<le> 1 + 4 * u" for u :: real
proof -
  assume u: "0 \<le> u" "u \<le> 1 / 8"
  have "(1 + u) ^ 3 = 1 + 3 * u + u * (u * (3 + u))" by (simp add: power3_eq_cube algebra_simps)
  moreover have "u * (3 + u) \<le> 1" using u mult_mono[of u "1/8" "3 + u" 4] by simp
  then have "u * (u * (3 + u)) \<le> u * 1" using u(1) by (rule mult_left_mono)
  ultimately show ?thesis by linarith
qed

lemma np_sum3: "np_sum rnd [x1, x2, x3] = rnd (rnd (rnd (0 + x1) + x2) + x3)"
  by (simp add: np_sum_def)

lemma np_sum3_bounds:
  assumes rnd: "\<And>x. \<bar>rnd x - x\<bar> \<le> u * \<bar>x\<bar>" and u: "0 \<le> u" "u \<le> 1 / 8"
    and x: "0 \<le> x1" "0 \<le> x2" "0 \<le> x3"
  shows "(x1 + x2 + x3) * (1 - u) ^ 3 \<le> np_sum rnd [x1, x2, x3]"
    and "np_sum rnd [x1, x2, x3] \<le> (x1 + x2 + x3) * (1 + u) ^ 3"
proof -
  define a where "a = rnd (0 + x1)"
  define b where "b = rnd (a + x2)"
  define t where "t = rnd (b + x3)"
  have t: "np_sum rnd [x1, x2, x3] = t" by (simp add: np_sum3 a_def b_def t_def)
  have u1: "0 \<le> 1 - u" "1 - u \<le> 1" "1 \<le> 1 + u" "u \<le> 1" using u by simp_all
  have a: "x1 * (1 - u) \<le> a" "a \<le> x1 * (1 + u)"
    unfolding a_def using rnd_bounds[OF rnd, of x1] x by simp_all
  have a0: "0 \<le> a" unfolding a_def using rnd_nonneg[OF rnd _ u1(4), of "0 + x1"] x by simp
  have "x2 * (1 - u) \<le> x2" "x2 \<le> x2 * (1 + u)"
    using x(2) u by (simp_all add: algebra_simps)
  then have s12: "(x1 + x2) * (1 - u) \<le> a + x2" "a + x2 \<le> (x1 + x2) * (1 + u)"
    using a by (simp_all add: algebra_simps)
  have ax0: "0 \<le> a + x2" using a0 x by simp
  have b: "(a + x2) * (1 - u) \<le> b" "b \<le> (a + x2) * (1 + u)"
    unfolding b_def using rnd_bounds[OF rnd ax0] by simp_all
  have b0: "0 \<le> b" unfolding b_def by (rule rnd_nonneg[OF rnd ax0 u1(4)])
  have bl: "(x1 + x2) * (1 - u) ^ 2 \<le> b"
  proof -
    have "(x1 + x2) * (1 - u) * (1 - u) \<le> (a + x2) * (1 - u)"
      using s12(1) u1(1) by (rule mult_right_mono)
    then show ?thesis using b(1) by (simp add: power2_eq_square algebra_simps)
  qed
  have bu: "b \<le> (x1 + x2) * (1 + u) ^ 2"
  proof -
    have "(a + x2) * (1 + u) \<le> (x1 + x2) * (1 + u) * (1 + u)"
      using s12(2) u by (intro mult_right_mono) simp_all
    then show ?thesis using b(2) by (simp add: power2_eq_square algebra_simps)
  qed
  have p2: "(1 - u) ^ 2 \<le> 1" "1 \<le> (1 + u) ^ 2"
    using u by (simp_all add: power_le_one)
  have "x3 * (1 - u) ^ 2 \<le> x3 * 1" using p2(1) x(3) by (rule mult_left_mono)
  moreover have "x3 * 1 \<le> x3 * (1 + u) ^ 2" using p2(2) x(3) by (rule mult_left_mono)
  ultimately have s123: "(x1 + x2 + x3) * (1 - u) ^ 2 \<le> b + x3"
      "b + x3 \<le> (x1 + x2 + x3) * (1 + u) ^ 2"
    using bl bu by (simp_all add: algebra_simps)
  have bx0: "0 \<le> b + x3" using b0 x by simp
  have tt: "(b + x3) * (1 - u) \<le> t" "t \<le> (b + x3) * (1 + u)"
    unfolding t_def using rnd_bounds[OF rnd bx0] by simp_all
  have "(x1 + x2 + x3) * (1 - u) ^ 2 * (1 - u) \<le> (b + x3) * (1 - u)"
    using s123(1) u1(1) by (rule mult_right_mono)
  then show "(x1 + x2 + x3) * (1 - u) ^ 3 \<le> np_sum rnd [x1, x2, x3]"
    using tt(1) t by (simp add: power3_eq_cube power2_eq_square algebra_simps)
  have "(b + x3) * (1 + u) \<le> (x1 + x2 + x3) * (1 + u) ^ 2 * (1 + u)"
    using s123(2) u by (intro mult_right_mono) simp_all
  then show "np_sum rnd [x1, x2, x3] \<le> (x1 + x2 + x3) * (1 + u) ^ 3"
    using tt(2) t by (simp add: power3_eq_cube power2_eq_square algebra_simps)
qed

lemma np_sum3_simple_bounds:
  assumes rnd: "\<And>x. \<bar>rnd x - x\<bar> \<le> u * \<bar>x\<bar>" and u: "0 \<le> u" "u \<le> 1 / 8"
    and x: "0 \<le> x1" "0 \<le> x2" "0 \<le> x3"
  shows "(x1 + x2 + x3) * (1 - 3 * u) \<le> np_sum rnd [x1, x2, x3]"
    and "np_sum rnd [x1, x2, x3] \<le> (x1 + x2 + x3) * (1 + 4 * u)"
proof -
  have s: "0 \<le> x1 + x2 + x3" using x by simp
  have "(x1 + x2 + x3) * (1 - 3 * u) \<le> (x1 + x2 + x3) * (1 - u) ^ 3"
    using cube_lower[OF u] s by (rule mult_left_mono)
  then show "(x1 + x2 + x3) * (1 - 3 * u) \<le> np_sum rnd [x1, x2, x3]"
    using np_sum3_bounds(1)[OF rnd u x] by linarith
  have "(x1 + x2 + x3) * (1 + u) ^ 3 \<le> (x1 + x2 + x3) * (1 + 4 * u)"
    using cube_upper[OF u] s by (rule mult_left_mono)
  then show "np_sum rnd [x1, x2, x3] \<le> (x1 + x2 + x3) * (1 + 4 * u)"
    using np_sum3_bounds(2)[OF rnd u x] by linarith
qed

lemma weights3:
  assumes "np_sum rnd [s1, s2, s3] \<noteq> 0"
  shows "weights rnd [s1, s2, s3] =
          Some [rnd (s1 / np_sum rnd [s1, s2, s3]), rnd (s2 / np_sum rnd [s1, s2, s3]),
                rnd (s3 / np_sum rnd [s1, s2, s3])]"
  using assms by (simp add: weights_def Let_def)

lemma ratio_bounds:
  fixes S T u :: real
  assumes u: "0 \<le> u" "u \<le> 1 / 16" and S: "0 < S"
    and T: "S * (1 - 3 * u) \<le> T" "T \<le> S * (1 + 4 * u)"
  shows "0 < T" "S / T * (1 + u) \<le> 1 + 8 * u" "1 - 8 * u \<le> S / T * (1 - u)"
proof -
  have "0 < S * (1 - 3 * u)" using u S by simp
  then show T0: "0 < T" using T(1) by linarith
  have uu: "u * u \<le> u / 16" using mult_left_mono[OF u(2) u(1)] by simp
  have su: "0 \<le> S * u" "0 \<le> S * (u * u)" "S * (u * u) \<le> S * u / 16"
    using S u uu mult_left_mono[OF uu, of S] by simp_all
  have "S * (1 + u) \<le> (1 + 8 * u) * (S * (1 - 3 * u))"
    using su by (simp add: algebra_simps)
  also have "\<dots> \<le> (1 + 8 * u) * T"
    using T(1) u by (intro mult_left_mono) simp_all
  finally have "S * (1 + u) \<le> (1 + 8 * u) * T" .
  then have "S * (1 + u) / T \<le> 1 + 8 * u"
    using T0 by (simp add: pos_divide_le_eq)
  then show "S / T * (1 + u) \<le> 1 + 8 * u" by simp
  have "(1 - 8 * u) * T \<le> (1 - 8 * u) * (S * (1 + 4 * u))"
    using T(2) u by (intro mult_left_mono) simp_all
  also have "\<dots> \<le> S * (1 - u)"
    using su by (simp add: algebra_simps)
  finally have "(1 - 8 * u) * T \<le> S * (1 - u)" .
  then have "1 - 8 * u \<le> S * (1 - u) / T"
    using T0 by (simp add: pos_le_divide_eq)
  then show "1 - 8 * u \<le> S / T * (1 - u)" by simp
qed

lemma weight_close:
  fixes rnd :: "real \<Rightarrow> real"
  assumes rnd: "\<And>x. \<bar>rnd x - x\<bar> \<le> u * \<bar>x\<bar>" and u: "0 \<le> u" "u \<le> 1 / 16"
    and s: "0 \<le> s" "s \<le> S" "0 < S" and T: "0 < T"
    and R: "S / T * (1 + u) \<le> 1 + 8 * u" "1 - 8 * u \<le> S / T * (1 - u)"
  shows "0 \<le> rnd (s / T)" "\<bar>rnd (s / T) - s / S\<bar> \<le> 8 * u"
    "s / T * (1 - u) \<le> rnd (s / T)" "rnd (s / T) \<le> s / T * (1 + u)"
proof -
  have q: "0 \<le> s / T" using s(1) T by simp
  have u1: "u \<le> 1" using u by simp
  show "0 \<le> rnd (s / T)" by (rule rnd_nonneg[OF rnd q u1])
  show lo: "s / T * (1 - u) \<le> rnd (s / T)" and hi: "rnd (s / T) \<le> s / T * (1 + u)"
    using rnd_bounds[OF rnd q] by simp_all
  have f: "0 \<le> s / S" "s / S \<le> 1" using s by simp_all
  have e1: "s / T * (1 + u) = s / S * (S / T * (1 + u))"
    and e2: "s / T * (1 - u) = s / S * (S / T * (1 - u))"
    using s(3) by simp_all
  have "rnd (s / T) \<le> s / S * (S / T * (1 + u))"
    using hi unfolding e1 .
  also have "\<dots> \<le> s / S * (1 + 8 * u)"
    using R(1) f(1) by (rule mult_left_mono)
  finally have up: "rnd (s / T) - s / S \<le> s / S * (8 * u)"
    by (simp add: algebra_simps)
  have "s / S * (1 - 8 * u) \<le> s / S * (S / T * (1 - u))"
    using R(2) f(1) by (rule mult_left_mono)
  also have "\<dots> \<le> rnd (s / T)"
    using lo unfolding e2 .
  finally have dn: "s / S - rnd (s / T) \<le> s / S * (8 * u)"
    by (simp add: algebra_simps)
  have "s / S * (8 * u) \<le> 1 * (8 * u)"
    using f(2) u(1) by (intro mult_right_mono) simp_all
  then show "\<bar>rnd (s / T) - s / S\<bar> \<le> 8 * u"
    using up dn by linarith
qed

lemma unit_roundoff_small:
  fixes u :: real
  assumes "0 \<le> u" "u \<le> 1 / 2 ^ 53"
  shows "u \<le> 1 / 16" "14 * u \<le> 1 / 10 ^ 9"
  using assms by simp_all

subsection \<open>Claim C3: the weights of the ensemble\<close>

text \<open>
  Claim C3. Let the three scores be non-negative with a positive sum, and let every float
  operation return its exact result with a relative error of at most \<open>u\<close>, where
  \<open>u\<close> is at most \<open>2^-53\<close>, the unit roundoff of double precision (\<open>u = 0\<close> is exact
  arithmetic). Then the weights are computed (the sum is not zero), each weight is the
  float quotient of its score by the float sum of the scores, each weight differs from
  \<open>s[i] / (s1 + s2 + s3)\<close> by at most \<open>8 u\<close>, so is equal to it in exact arithmetic, each
  weight is non-negative, and the weights sum to 1 within \<open>10^-9\<close>, whether their sum is
  taken exactly or in floats.
\<close>

theorem ensemble_weights_normalised:
  fixes rnd :: "real \<Rightarrow> real"
  assumes rnd: "\<And>x. \<bar>rnd x - x\<bar> \<le> u * \<bar>x\<bar>" and u: "0 \<le> u" "u \<le> 1 / 2 ^ 53"
    and s: "0 \<le> s1" "0 \<le> s2" "0 \<le> s3" "0 < s1 + s2 + s3"
  shows "\<exists>w1 w2 w3.
     weights rnd [s1, s2, s3] = Some [w1, w2, w3] \<and>
     w1 = rnd (s1 / np_sum rnd [s1, s2, s3]) \<and>
     w2 = rnd (s2 / np_sum rnd [s1, s2, s3]) \<and>
     w3 = rnd (s3 / np_sum rnd [s1, s2, s3]) \<and>
     \<bar>w1 - s1 / (s1 + s2 + s3)\<bar> \<le> 8 * u \<and>
     \<bar>w2 - s2 / (s1 + s2 + s3)\<bar> \<le> 8 * u \<and>
     \<bar>w3 - s3 / (s1 + s2 + s3)\<bar> \<le> 8 * u \<and>
     0 \<le> w1 \<and> 0 \<le> w2 \<and> 0 \<le> w3 \<and>
     \<bar>w1 + w2 + w3 - 1\<bar> \<le> 8 * u \<and>
     \<bar>w1 + w2 + w3 - 1\<bar> \<le> 1 / 10 ^ 9 \<and>
     \<bar>np_sum rnd [w1, w2, w3] - 1\<bar> \<le> 1 / 10 ^ 9"
proof -
  define S where "S = s1 + s2 + s3"
  define T where "T = np_sum rnd [s1, s2, s3]"
  define w1 where "w1 = rnd (s1 / T)"
  define w2 where "w2 = rnd (s2 / T)"
  define w3 where "w3 = rnd (s3 / T)"
  have u16: "u \<le> 1 / 16" and u8: "u \<le> 1 / 8" and small: "14 * u \<le> 1 / 10 ^ 9"
    using unit_roundoff_small[OF u] by simp_all
  have S: "0 < S" "s1 \<le> S" "s2 \<le> S" "s3 \<le> S"
    using s by (simp_all add: S_def)
  have Tb: "S * (1 - 3 * u) \<le> T" "T \<le> S * (1 + 4 * u)"
    unfolding S_def T_def using np_sum3_simple_bounds[OF rnd u(1) u8 s(1-3)] by simp_all
  note R = ratio_bounds[OF u(1) u16 S(1) Tb]
  note c1 = weight_close[OF rnd u(1) u16 s(1) S(2) S(1) R, folded w1_def]
  note c2 = weight_close[OF rnd u(1) u16 s(2) S(3) S(1) R, folded w2_def]
  note c3 = weight_close[OF rnd u(1) u16 s(3) S(4) S(1) R, folded w3_def]
  have T0: "T \<noteq> 0" using R(1) by simp
  have W: "weights rnd [s1, s2, s3] = Some [w1, w2, w3]"
    using weights3[of rnd s1 s2 s3] T0 by (simp add: T_def w1_def w2_def w3_def)
  have q: "s1 / T + s2 / T + s3 / T = S / T"
    by (simp add: S_def add_divide_distrib)
  have "w1 + w2 + w3 \<le> (s1 / T + s2 / T + s3 / T) * (1 + u)"
    using c1(4) c2(4) c3(4) by (simp add: algebra_simps)
  then have up: "w1 + w2 + w3 \<le> 1 + 8 * u"
    unfolding q using R(2) by linarith
  have "(s1 / T + s2 / T + s3 / T) * (1 - u) \<le> w1 + w2 + w3"
    using c1(3) c2(3) c3(3) by (simp add: algebra_simps)
  then have dn: "1 - 8 * u \<le> w1 + w2 + w3"
    unfolding q using R(3) by linarith
  have sum8: "\<bar>w1 + w2 + w3 - 1\<bar> \<le> 8 * u"
    using up dn by linarith
  have sum9: "\<bar>w1 + w2 + w3 - 1\<bar> \<le> 1 / 10 ^ 9"
    using sum8 small u(1) by linarith
  have fb: "(w1 + w2 + w3) * (1 - 3 * u) \<le> np_sum rnd [w1, w2, w3]"
    "np_sum rnd [w1, w2, w3] \<le> (w1 + w2 + w3) * (1 + 4 * u)"
    using np_sum3_simple_bounds[OF rnd u(1) u8 c1(1) c2(1) c3(1)] by simp_all
  have uu: "u * u \<le> u / 16" using mult_left_mono[OF u16 u(1)] by simp
  have "(w1 + w2 + w3) * (1 + 4 * u) \<le> (1 + 8 * u) * (1 + 4 * u)"
    using up u(1) by (intro mult_right_mono) simp_all
  also have "\<dots> \<le> 1 + 14 * u"
    using uu by (simp add: algebra_simps)
  finally have fup: "np_sum rnd [w1, w2, w3] \<le> 1 + 14 * u"
    using fb(2) by linarith
  have "1 - 14 * u \<le> (1 - 8 * u) * (1 - 3 * u)"
    using u(1) by (simp add: algebra_simps)
  also have "\<dots> \<le> (w1 + w2 + w3) * (1 - 3 * u)"
    using dn u16 by (intro mult_right_mono) simp_all
  finally have fdn: "1 - 14 * u \<le> np_sum rnd [w1, w2, w3]"
    using fb(1) by linarith
  have fsum: "\<bar>np_sum rnd [w1, w2, w3] - 1\<bar> \<le> 1 / 10 ^ 9"
    using fup fdn small by linarith
  show ?thesis
    using W c1(1,2) c2(1,2) c3(1,2) sum8 sum9 fsum
    unfolding w1_def w2_def w3_def T_def S_def by blast
qed

theorem ensemble_weights_normalised_witness:
  "weights exact [95 / 100, 93 / 100, 90 / 100] = Some [95 / 278, 93 / 278, 90 / 278] \<and>
   (95 / 278 :: real) = (95 / 100) / (95 / 100 + 93 / 100 + 90 / 100) \<and>
   (95 / 278 + 93 / 278 + 90 / 278 :: real) = 1 \<and>
   (\<exists>w1 w2 w3. weights inflate [95 / 100, 93 / 100, 90 / 100] = Some [w1, w2, w3] \<and>
      0 \<le> w1 \<and> 0 \<le> w2 \<and> 0 \<le> w3 \<and>
      \<bar>w1 + w2 + w3 - 1\<bar> \<le> 1 / 10 ^ 9 \<and>
      \<bar>np_sum inflate [w1, w2, w3] - 1\<bar> \<le> 1 / 10 ^ 9)"
proof -
  have s: "(0 :: real) \<le> 95 / 100" "(0 :: real) \<le> 93 / 100" "(0 :: real) \<le> 90 / 100"
    "(0 :: real) < 95 / 100 + 93 / 100 + 90 / 100"
    by simp_all
  have r0: "\<bar>exact x - x\<bar> \<le> 0 * \<bar>x\<bar>" for x
    by (simp add: exact_def)
  have u0: "(0 :: real) \<le> 0" "(0 :: real) \<le> 1 / 2 ^ 53"
    by simp_all
  from ensemble_weights_normalised[of exact 0, OF r0 u0 s]
  obtain w1 w2 w3 where w: "weights exact [95 / 100, 93 / 100, 90 / 100] = Some [w1, w2, w3]"
    "\<bar>w1 - (95 / 100) / (95 / 100 + 93 / 100 + 90 / 100)\<bar> \<le> 8 * 0"
    "\<bar>w2 - (93 / 100) / (95 / 100 + 93 / 100 + 90 / 100)\<bar> \<le> 8 * 0"
    "\<bar>w3 - (90 / 100) / (95 / 100 + 93 / 100 + 90 / 100)\<bar> \<le> 8 * 0"
    by blast
  have "w1 = 95 / 278" "w2 = 93 / 278" "w3 = 90 / 278"
    using w(2-4) by simp_all
  then have e: "weights exact [95 / 100, 93 / 100, 90 / 100] = Some [95 / 278, 93 / 278, 90 / 278]"
    using w(1) by simp
  have r1: "\<bar>inflate x - x\<bar> \<le> (1 / 2 ^ 53) * \<bar>x\<bar>" for x
    by (simp add: inflate_def algebra_simps abs_mult)
  have u1: "(0 :: real) \<le> 1 / 2 ^ 53" "(1 / 2 ^ 53 :: real) \<le> 1 / 2 ^ 53"
    by simp_all
  from ensemble_weights_normalised[of inflate "1 / 2 ^ 53", OF r1 u1 s]
  have i: "\<exists>w1 w2 w3. weights inflate [95 / 100, 93 / 100, 90 / 100] = Some [w1, w2, w3] \<and>
      0 \<le> w1 \<and> 0 \<le> w2 \<and> 0 \<le> w3 \<and>
      \<bar>w1 + w2 + w3 - 1\<bar> \<le> 1 / 10 ^ 9 \<and>
      \<bar>np_sum inflate [w1, w2, w3] - 1\<bar> \<le> 1 / 10 ^ 9"
    by blast
  have "(95 / 278 :: real) = (95 / 100) / (95 / 100 + 93 / 100 + 90 / 100)"
    "(95 / 278 + 93 / 278 + 90 / 278 :: real) = 1"
    by simp_all
  then show ?thesis using e i by (intro conjI)
qed

end
